theory Spec2Isabelle
  imports Complex_Main "HOL-Library.Multiset" "HOL-Library.Sublist"
begin

section \<open>Values of a pandas table\<close>

text \<open>
  The two scripts of the repository, \<^verbatim>\<open>dashboard.py\<close> and \<^verbatim>\<open>main.py\<close>, transform
  pandas tables.  A numeric cell is a float64: one of the three IEEE special values or a
  finite number.  Finite numbers are modelled by their exact rational value; the rounding of
  a finite quotient and the sign of zero are not modelled.  Division by zero, the
  propagation of NaN and the comparisons, which are what the ranking depends on, are exact
  in IEEE arithmetic and are modelled as they are.
\<close>

datatype fval = NaN | PInf | NInf | Fin rat

text \<open>
  A cell is a number (a cell of a float64 or int64 column, as \<^verbatim>\<open>pd.to_numeric\<close>
  produces), a string, or Python's \<^verbatim>\<open>None\<close> (cells of object columns).
\<close>

datatype cell = Num fval | Str string | NoneV

datatype error =
    KeyError string
  | ValueError string
  | TypeError
  | RuntimeError string
  | OtherError string

text \<open>\<^verbatim>\<open>pd.isna\<close> on a scalar: NaN and None are missing; an infinity is not.\<close>

fun isna :: "cell \<Rightarrow> bool" where
  "isna (Num NaN) = True"
| "isna NoneV = True"
| "isna _ = False"

text \<open>IEEE comparison \<open>\<le>\<close>: false as soon as one side is NaN.\<close>

fun fle :: "fval \<Rightarrow> fval \<Rightarrow> bool" where
  "fle (Fin a) (Fin b) = (a \<le> b)"
| "fle NaN _ = False"
| "fle _ NaN = False"
| "fle NInf _ = True"
| "fle _ PInf = True"
| "fle _ _ = False"

text \<open>IEEE division of float64 values.\<close>

fun fdiv :: "fval \<Rightarrow> fval \<Rightarrow> fval" where
  "fdiv (Fin a) (Fin b) =
     (if b = 0 then (if a = 0 then NaN else if 0 < a then PInf else NInf) else Fin (a / b))"
| "fdiv NaN _ = NaN"
| "fdiv _ NaN = NaN"
| "fdiv (Fin a) _ = Fin 0"
| "fdiv PInf (Fin b) = (if 0 \<le> b then PInf else NInf)"
| "fdiv NInf (Fin b) = (if 0 \<le> b then NInf else PInf)"
| "fdiv _ _ = NaN"

section \<open>Number Formatter (\<^verbatim>\<open>format_number\<close>, dashboard.py)\<close>

definition digit_char :: "nat \<Rightarrow> char" where
  "digit_char d = ''0123456789'' ! d"

text \<open>Python's \<^verbatim>\<open>str\<close> of a non-negative integer: its decimal digits.\<close>

fun str_nat :: "nat \<Rightarrow> string" where
  "str_nat n = (if n < 10 then [digit_char n] else str_nat (n div 10) @ [digit_char (n mod 10)])"

declare str_nat.simps [simp del]

definition str_int :: "int \<Rightarrow> string" where
  "str_int i = (if i < 0 then CHR ''-'' # str_nat (nat (- i)) else str_nat (nat i))"

text \<open>Rounding to the nearest integer, ties to the even one, as float formatting does.\<close>

definition round_half_even :: "rat \<Rightarrow> int" where
  "round_half_even x = (let f = \<lfloor>x\<rfloor>; d = x - of_int f in
     if d < 1/2 then f else if 1/2 < d then f + 1 else if even f then f else f + 1)"

text \<open>The format \<^verbatim>\<open>f"{val:.2f}"\<close> of a float.\<close>

definition format_2f :: "fval \<Rightarrow> string" where
  "format_2f v = (case v of NaN \<Rightarrow> ''nan'' | PInf \<Rightarrow> ''inf'' | NInf \<Rightarrow> ''-inf''
     | Fin r \<Rightarrow> (let q = nat (round_half_even (\<bar>r\<bar> * 100)) in
         (if r < 0 then ''-'' else '''') @ str_nat (q div 100) @ ''.'' @
         [digit_char (q mod 100 div 10), digit_char (q mod 10)]))"

text \<open>\<^verbatim>\<open>float(val).is_integer()\<close>: false on NaN and on the infinities.\<close>

fun is_integer :: "fval \<Rightarrow> bool" where
  "is_integer (Fin r) = (r = of_int \<lfloor>r\<rfloor>)"
| "is_integer _ = False"

text \<open>
  \<^verbatim>\<open>format_number\<close>, with the source's order of tests: missing first, then numbers
  (whole ones through \<^verbatim>\<open>int(val)\<close>, the others with two decimals), then
  \<^verbatim>\<open>str(val)\<close>.
\<close>

definition format_number :: "cell \<Rightarrow> string" where
  "format_number val =
     (if isna val then ''''
      else case val of
        Num x \<Rightarrow> (if is_integer x then (case x of Fin r \<Rightarrow> str_int \<lfloor>r\<rfloor> | _ \<Rightarrow> '''')
                  else format_2f x)
      | Str s \<Rightarrow> s
      | NoneV \<Rightarrow> ''None'')"

subsection \<open>What the specification calls an integer string and a 2-decimal string\<close>








section \<open>Tables\<close>

text \<open>
  A pandas DataFrame: the column labels in order, and the rows, each row holding one cell
  per column in the same order.  The row index is not modelled (no operation below reads
  it).
\<close>

record frame =
  columns :: "string list"
  rows :: "cell list list"

text \<open>
  Tables as \<^verbatim>\<open>pd.read_csv\<close> builds them have pairwise different labels and complete
  rows.
\<close>

definition wf_frame :: "frame \<Rightarrow> bool" where
  "wf_frame df = (distinct (columns df) \<and> list_all (\<lambda>r. length r = length (columns df)) (rows df))"

text \<open>The position of a label; the length of the list when the label is absent.\<close>

definition index_of :: "string list \<Rightarrow> string \<Rightarrow> nat" where
  "index_of cols c = length (takeWhile (\<lambda>x. x \<noteq> c) cols)"

text \<open>A column is numeric when every cell is a number (dtype float64 or int64).\<close>

definition numeric_col :: "frame \<Rightarrow> string \<Rightarrow> bool" where
  "numeric_col df c = list_all (\<lambda>r. case r ! index_of (columns df) c of Num x \<Rightarrow> True | _ \<Rightarrow> False) (rows df)"

text \<open>An elementwise operation raises as soon as one element raises.\<close>

fun collect :: "(error + 'a) list \<Rightarrow> error + 'a list" where
  "collect [] = Inr []"
| "collect (x # xs) =
     (case x of Inl e \<Rightarrow> Inl e
      | Inr v \<Rightarrow> (case collect xs of Inl e \<Rightarrow> Inl e | Inr vs \<Rightarrow> Inr (v # vs)))"

text \<open>Boolean indexing \<^verbatim>\<open>df[cond]\<close>: the condition is computed for every row first.\<close>

definition filter_rows :: "(cell list \<Rightarrow> error + bool) \<Rightarrow> frame \<Rightarrow> error + frame" where
  "filter_rows p df =
     (case collect (map p (rows df)) of
        Inl e \<Rightarrow> Inl e
      | Inr keep \<Rightarrow> Inr (df\<lparr>rows := map fst (filter snd (zip (rows df) keep))\<rparr>))"

text \<open>
  Comparison of a cell with an integer bound.  A missing cell compares false; comparing a
  string with a number raises \<^verbatim>\<open>TypeError\<close>.
\<close>

fun cell_ge :: "cell \<Rightarrow> int \<Rightarrow> error + bool" where
  "cell_ge (Num x) m = Inr (fle (Fin (of_int m)) x)"
| "cell_ge NoneV m = Inr False"
| "cell_ge (Str s) m = Inl TypeError"

fun cell_le :: "cell \<Rightarrow> int \<Rightarrow> error + bool" where
  "cell_le (Num x) m = Inr (fle x (Fin (of_int m)))"
| "cell_le NoneV m = Inr False"
| "cell_le (Str s) m = Inl TypeError"

text \<open>Division of cells: defined on numbers, \<^verbatim>\<open>TypeError\<close> on strings and None.\<close>

fun cell_div :: "cell \<Rightarrow> cell \<Rightarrow> error + cell" where
  "cell_div (Num a) (Num b) = Inr (Num (fdiv a b))"
| "cell_div _ _ = Inl TypeError"

text \<open>\<^verbatim>\<open>df[c] = vals\<close>: overwrite the column when the label exists, append it otherwise.\<close>

definition set_col :: "frame \<Rightarrow> string \<Rightarrow> cell list \<Rightarrow> frame" where
  "set_col df c vals =
     (if c \<in> set (columns df)
      then df\<lparr>rows := map (\<lambda>(r, v). r[index_of (columns df) c := v]) (zip (rows df) vals)\<rparr>
      else \<lparr>columns = columns df @ [c], rows = map (\<lambda>(r, v). r @ [v]) (zip (rows df) vals)\<rparr>)"

subsection \<open>Sorting\<close>

text \<open>
  \<^verbatim>\<open>sort_values\<close> is called without \<^verbatim>\<open>kind\<close>, so pandas sorts with its default
  algorithm, whose order among equal keys pandas leaves open.  The algorithm that sorts the
  keys that are not NaN is therefore a parameter \<open>srt\<close> of the model: it receives the keys
  and returns the positions in ascending order of key.  \<open>argsort_ok\<close> is all that is
  assumed of it.
\<close>

type_synonym argsort = "fval list \<Rightarrow> nat list"

definition argsort_ok :: "argsort \<Rightarrow> bool" where
  "argsort_ok srt = (\<forall>ks. NaN \<notin> set ks \<longrightarrow>
      mset (srt ks) = mset [0..<length ks] \<and> sorted_wrt (\<lambda>i j. fle (ks ! i) (ks ! j)) (srt ks))"

text \<open>
  What pandas does around the algorithm (\<^verbatim>\<open>nargsort\<close> with \<^verbatim>\<open>na_position='last'\<close>):
  the NaN positions are set aside and appended at the end in both directions; for a
  descending sort the other keys are reversed, sorted ascending, and the result reversed.
\<close>

definition nargsort :: "argsort \<Rightarrow> fval list \<Rightarrow> bool \<Rightarrow> nat list" where
  "nargsort srt items ascending =
     (let idx = [0..<length items];
          non_nan_idx = filter (\<lambda>i. items ! i \<noteq> NaN) idx;
          nan_idx = filter (\<lambda>i. items ! i = NaN) idx;
          non_nans = map (\<lambda>i. items ! i) non_nan_idx;
          non_nans' = (if ascending then non_nans else rev non_nans);
          non_nan_idx' = (if ascending then non_nan_idx else rev non_nan_idx);
          indexer = map (\<lambda>j. non_nan_idx' ! j) (srt non_nans');
          indexer' = (if ascending then indexer else rev indexer)
      in indexer' @ nan_idx)"

text \<open>
  The sort key of a cell.  None counts as missing.  Sorting a column of strings is not
  modelled (the ranking columns are numeric): the model reports \<^verbatim>\<open>TypeError\<close> there, and
  no statement below relies on that error.
\<close>

fun sort_key_of :: "cell \<Rightarrow> error + fval" where
  "sort_key_of (Num x) = Inr x"
| "sort_key_of NoneV = Inr NaN"
| "sort_key_of (Str s) = Inl TypeError"

definition sort_values :: "argsort \<Rightarrow> frame \<Rightarrow> string \<Rightarrow> bool \<Rightarrow> error + frame" where
  "sort_values srt df by ascending =
     (if by \<notin> set (columns df) then Inl (KeyError by)
      else case collect (map (\<lambda>r. sort_key_of (r ! index_of (columns df) by)) (rows df)) of
        Inl e \<Rightarrow> Inl e
      | Inr ks \<Rightarrow> Inr (df\<lparr>rows := map (\<lambda>k. rows df ! k) (nargsort srt ks ascending)\<rparr>))"

text \<open>\<^verbatim>\<open>head(n)\<close>: the first \<open>n\<close> rows; all but the last \<open>-n\<close> rows when \<open>n\<close> is negative.\<close>

definition head :: "int \<Rightarrow> frame \<Rightarrow> frame" where
  "head n df = df\<lparr>rows :=
     (if 0 \<le> n then take (nat n) (rows df) else take (length (rows df) - nat (- n)) (rows df))\<rparr>"

text \<open>
  \<^verbatim>\<open>df[cs]\<close> with a list of labels: \<^verbatim>\<open>KeyError\<close> when a label is absent (the model
  carries the first absent label), the listed columns in the listed order otherwise.
\<close>

definition select_cols :: "frame \<Rightarrow> string list \<Rightarrow> error + frame" where
  "select_cols df cs =
     (case filter (\<lambda>c. c \<notin> set (columns df)) cs of
        m # _ \<Rightarrow> Inl (KeyError m)
      | [] \<Rightarrow> Inr \<lparr>columns = cs,
                   rows = map (\<lambda>r. map (\<lambda>c. r ! index_of (columns df) c) cs) (rows df)\<rparr>)"

text \<open>\<^verbatim>\<open>display.insert(0, "Rk", range(1, len(display) + 1))\<close>.\<close>

definition insert_rk :: "frame \<Rightarrow> error + frame" where
  "insert_rk df =
     (if ''Rk'' \<in> set (columns df) then Inl (ValueError ''cannot insert Rk, already exists'')
      else Inr \<lparr>columns = ''Rk'' # columns df,
                rows = map (\<lambda>(i, r). Num (Fin (of_nat i)) # r) (enumerate 1 (rows df))\<rparr>)"

text \<open>\<^verbatim>\<open>rename(columns={old: new})\<close>: every column labelled \<open>old\<close> is relabelled.\<close>

definition rename :: "frame \<Rightarrow> string \<Rightarrow> string \<Rightarrow> frame" where
  "rename df old new = df\<lparr>columns := map (\<lambda>c. if c = old then new else c) (columns df)\<rparr>"

subsection \<open>Labels\<close>

text \<open>
  \<^verbatim>\<open>str.title()\<close> on ASCII text: the first letter of every run of letters in upper case,
  the other letters in lower case.  Characters outside ASCII are left as they are.
\<close>

definition is_lower :: "char \<Rightarrow> bool" where
  "is_lower c = (c \<in> set ''abcdefghijklmnopqrstuvwxyz'')"

definition is_upper :: "char \<Rightarrow> bool" where
  "is_upper c = (c \<in> set ''ABCDEFGHIJKLMNOPQRSTUVWXYZ'')"

definition to_upper :: "char \<Rightarrow> char" where
  "to_upper c = (case map_of (zip ''abcdefghijklmnopqrstuvwxyz'' ''ABCDEFGHIJKLMNOPQRSTUVWXYZ'') c of
       Some u \<Rightarrow> u | None \<Rightarrow> c)"

definition to_lower :: "char \<Rightarrow> char" where
  "to_lower c = (case map_of (zip ''ABCDEFGHIJKLMNOPQRSTUVWXYZ'' ''abcdefghijklmnopqrstuvwxyz'') c of
       Some l \<Rightarrow> l | None \<Rightarrow> c)"

fun title_from :: "bool \<Rightarrow> string \<Rightarrow> string" where
  "title_from prev [] = []"
| "title_from prev (c # cs) =
     (if is_lower c then (if prev then c else to_upper c) # title_from True cs
      else if is_upper c then (if prev then to_lower c else c) # title_from True cs
      else c # title_from False cs)"

definition title :: "string \<Rightarrow> string" where
  "title s = title_from False s"

definition replace_underscores :: "string \<Rightarrow> string" where
  "replace_underscores s = map (\<lambda>c. if c = CHR ''_'' then CHR '' '' else c) s"

section \<open>Leaderboard Builder (\<^verbatim>\<open>build_top_table\<close>, dashboard.py)\<close>

text \<open>
  The formatting loop: every column whose label is not one of the five listed ones is
  mapped through \<^verbatim>\<open>format_number\<close>.
\<close>

definition display_cell :: "string \<Rightarrow> cell \<Rightarrow> cell" where
  "display_cell col v =
     (if col \<in> set [''Rk'', ''player'', ''team'', ''country'', ''Country''] then v
      else Str (format_number v))"

definition format_display :: "frame \<Rightarrow> frame" where
  "format_display df =
     df\<lparr>rows := map (\<lambda>r. map (\<lambda>(c, v). display_cell c v) (zip (columns df) r)) (rows df)\<rparr>"

text \<open>
  Lines 42 to 44, the minutes filter: applied when the table has a \<^verbatim>\<open>minutesPlayed\<close>
  column and the threshold is positive.
\<close>

definition minutes_filter :: "frame \<Rightarrow> int \<Rightarrow> error + frame" where
  "minutes_filter df min_minutes =
     (if ''minutesPlayed'' \<in> set (columns df) \<and> 0 < min_minutes
      then filter_rows (\<lambda>r. cell_ge (r ! index_of (columns df) ''minutesPlayed'') min_minutes) df
      else Inr df)"

text \<open>
  Lines 46 to 51, the ranking column: \<^verbatim>\<open>work[metric] / (work["minutesPlayed"] / 90.0)\<close>
  stored under the label \<^verbatim>\<open>metric_per90\<close> when per-90 is requested and the minutes
  column exists, the metric itself otherwise.
\<close>

definition per90_stage :: "frame \<Rightarrow> string \<Rightarrow> bool \<Rightarrow> error + frame \<times> string" where
  "per90_stage work metric per_90 =
     (if per_90 \<and> ''minutesPlayed'' \<in> set (columns work)
      then (if metric \<notin> set (columns work) then Inl (KeyError metric)
            else case collect (map (\<lambda>r.
                     case cell_div (r ! index_of (columns work) ''minutesPlayed'') (Num (Fin 90)) of
                       Inl e \<Rightarrow> Inl e
                     | Inr d \<Rightarrow> cell_div (r ! index_of (columns work) metric) d) (rows work)) of
                   Inl e \<Rightarrow> Inl e
                 | Inr vals \<Rightarrow> Inr (set_col work (metric @ ''_per90'') vals, metric @ ''_per90''))
      else Inr (work, metric))"

text \<open>
  Lines 40 to 54: the copy, the minutes filter, the ranking column, the sort and the first
  ten rows.  The result is the working table and the label of the ranking column.
\<close>

definition top_work ::
  "argsort \<Rightarrow> frame \<Rightarrow> string \<Rightarrow> bool \<Rightarrow> int \<Rightarrow> bool \<Rightarrow> error + frame \<times> string" where
  "top_work srt df metric per_90 min_minutes ascending =
     (case minutes_filter df min_minutes of
        Inl e \<Rightarrow> Inl e
      | Inr work \<Rightarrow>
        (case per90_stage work metric per_90 of
           Inl e \<Rightarrow> Inl e
         | Inr (work1, metric_col) \<Rightarrow>
           (case sort_values srt work1 metric_col ascending of
              Inl e \<Rightarrow> Inl e
            | Inr work2 \<Rightarrow> Inr (head 10 work2, metric_col))))"

text \<open>
  Lines 57 to 59: the columns selected for display.  \<^verbatim>\<open>if extra_cols:\<close> is false for
  \<^verbatim>\<open>None\<close> and for the empty list.
\<close>

definition display_cols :: "string \<Rightarrow> string list option \<Rightarrow> string list" where
  "display_cols metric_col extra_cols =
     [''player'', ''team'', metric_col] @ (case extra_cols of None \<Rightarrow> [] | Some xs \<Rightarrow> xs)"

text \<open>\<^verbatim>\<open>if old in display.columns: display = display.rename(columns={old: new})\<close>.\<close>

definition rename_if_present :: "frame \<Rightarrow> string \<Rightarrow> string \<Rightarrow> frame" where
  "rename_if_present df old new = (if old \<in> set (columns df) then rename df old new else df)"

text \<open>
  Lines 64 to 76: the ranking column gets its pretty name, then the age and country
  columns get their labels, one renaming after the other.
\<close>

definition pretty_labels :: "frame \<Rightarrow> string \<Rightarrow> string \<Rightarrow> frame" where
  "pretty_labels display metric metric_col =
     rename_if_present
       (rename_if_present
         (rename_if_present
           (rename_if_present
             (rename display metric_col (title (replace_underscores metric)))
             ''age'' ''Age'')
           ''age_x'' ''Age'')
         ''age_y'' ''Age'')
       ''country'' ''Country''"

text \<open>Lines 56 to 83: the display table built from the working table.\<close>

definition build_display :: "frame \<Rightarrow> string \<Rightarrow> string \<Rightarrow> string list option \<Rightarrow> error + frame" where
  "build_display work metric metric_col extra_cols =
     (case select_cols work (display_cols metric_col extra_cols) of
        Inl e \<Rightarrow> Inl e
      | Inr display \<Rightarrow>
        (case insert_rk display of
           Inl e \<Rightarrow> Inl e
         | Inr display1 \<Rightarrow> Inr (format_display (pretty_labels display1 metric metric_col))))"

definition build_top_table ::
  "argsort \<Rightarrow> frame \<Rightarrow> string \<Rightarrow> bool \<Rightarrow> int \<Rightarrow> bool \<Rightarrow> string list option \<Rightarrow> error + frame" where
  "build_top_table srt df metric per_90 min_minutes ascending extra_cols =
     (case top_work srt df metric per_90 min_minutes ascending of
        Inl e \<Rightarrow> Inl e
      | Inr (work, metric_col) \<Rightarrow> build_display work metric metric_col extra_cols)"

subsection \<open>A sorting algorithm to run the model with\<close>

text \<open>
  Insertion sort on positions, which is also what NumPy's default sort does on short
  arrays.  It is one algorithm that meets \<open>argsort_ok\<close>; the general statements below hold
  for every such algorithm.
\<close>

fun insert_idx :: "fval list \<Rightarrow> nat \<Rightarrow> nat list \<Rightarrow> nat list" where
  "insert_idx ks i [] = [i]"
| "insert_idx ks i (j # js) = (if fle (ks ! i) (ks ! j) then i # j # js else j # insert_idx ks i js)"

definition insertion_argsort :: argsort where
  "insertion_argsort ks = foldr (insert_idx ks) [0..<length ks] []"

section \<open>The age column\<close>

text \<open>
  The choice of the age column, written twice in the repository with the same chain of
  tests: lines 28 to 34 of main.py and lines 229 to 235 of dashboard.py.
\<close>

definition choose_age_col :: "string list \<Rightarrow> string option" where
  "choose_age_col cols =
     (if ''age'' \<in> set cols then Some ''age''
      else if ''age_x'' \<in> set cols then Some ''age_x''
      else if ''age_y'' \<in> set cols then Some ''age_y''
      else None)"

section \<open>Tackler Extractor (\<^verbatim>\<open>get_top_tacklers_super_lig\<close>, main.py)\<close>

text \<open>
  \<^verbatim>\<open>df[(df[age_col] >= min_age) | (df[age_col].isna())]\<close> and the same with
  \<^verbatim>\<open><=\<close>: a row passes when its age meets the bound or is missing.
\<close>

definition age_at_least :: "string \<Rightarrow> int \<Rightarrow> frame \<Rightarrow> error + frame" where
  "age_at_least age_col min_age df =
     (if age_col \<notin> set (columns df) then Inl (KeyError age_col)
      else filter_rows (\<lambda>r. case cell_ge (r ! index_of (columns df) age_col) min_age of
                               Inl e \<Rightarrow> Inl e
                             | Inr b \<Rightarrow> Inr (b \<or> isna (r ! index_of (columns df) age_col))) df)"

definition age_at_most :: "string \<Rightarrow> int \<Rightarrow> frame \<Rightarrow> error + frame" where
  "age_at_most age_col max_age df =
     (if age_col \<notin> set (columns df) then Inl (KeyError age_col)
      else filter_rows (\<lambda>r. case cell_le (r ! index_of (columns df) age_col) max_age of
                               Inl e \<Rightarrow> Inl e
                             | Inr b \<Rightarrow> Inr (b \<or> isna (r ! index_of (columns df) age_col))) df)"

definition age_filter :: "string \<Rightarrow> int option \<Rightarrow> int option \<Rightarrow> frame \<Rightarrow> error + frame" where
  "age_filter age_col min_age max_age df =
     (case (case min_age of None \<Rightarrow> Inr df | Some lo \<Rightarrow> age_at_least age_col lo df) of
        Inl e \<Rightarrow> Inl e
      | Inr df1 \<Rightarrow> (case max_age of None \<Rightarrow> Inr df1 | Some hi \<Rightarrow> age_at_most age_col hi df1))"

text \<open>\<^verbatim>\<open>df.dropna(subset=[c])\<close>.\<close>

definition dropna :: "frame \<Rightarrow> string \<Rightarrow> error + frame" where
  "dropna df c =
     (if c \<notin> set (columns df) then Inl (KeyError c)
      else Inr (df\<lparr>rows := filter (\<lambda>r. \<not> isna (r ! index_of (columns df) c)) (rows df)\<rparr>))"

text \<open>\<^verbatim>\<open>if col not in top.columns: top[col] = None\<close>.\<close>

definition ensure_col :: "frame \<Rightarrow> string \<Rightarrow> frame" where
  "ensure_col df c =
     (if c \<notin> set (columns df) then set_col df c (replicate (length (rows df)) NoneV) else df)"

definition output_columns :: "string list" where
  "output_columns = [''player'', ''team'', ''age'', ''tackles'', ''position'', ''nationality'']"

text \<open>
  Lines 27 to 44: the rows that enter the ranking.  The age bounds are applied when the
  table has an age column; rows without a tackle count are dropped.
\<close>

definition local_candidates :: "frame \<Rightarrow> int option \<Rightarrow> int option \<Rightarrow> error + frame" where
  "local_candidates df min_age max_age =
     (case (case choose_age_col (columns df) of
              None \<Rightarrow> Inr df
            | Some a \<Rightarrow> age_filter a min_age max_age df) of
        Inl e \<Rightarrow> Inl e
      | Inr df1 \<Rightarrow> dropna df1 ''tackles'')"

text \<open>Lines 51 to 53: the chosen age column is relabelled \<^verbatim>\<open>age\<close>.\<close>

definition normalise_age :: "string option \<Rightarrow> frame \<Rightarrow> frame" where
  "normalise_age age_col df =
     (case age_col of
        None \<Rightarrow> df
      | Some a \<Rightarrow> if a \<noteq> ''age'' then rename df a ''age'' else df)"

text \<open>Lines 45 to 60: the sort, the first \<open>top_n\<close> rows and the output columns.\<close>

definition local_ranked :: "argsort \<Rightarrow> string option \<Rightarrow> frame \<Rightarrow> int \<Rightarrow> error + frame" where
  "local_ranked srt age_col df top_n =
     (case sort_values srt df ''tackles'' False of
        Inl e \<Rightarrow> Inl e
      | Inr df3 \<Rightarrow>
          select_cols
            (ensure_col (ensure_col (normalise_age age_col (head top_n df3)) ''position'')
               ''nationality'')
            output_columns)"

text \<open>Lines 25 to 60: the path taken when \<^verbatim>\<open>tackles_joined.csv\<close> exists.\<close>

definition local_top_tacklers ::
  "argsort \<Rightarrow> frame \<Rightarrow> int \<Rightarrow> int option \<Rightarrow> int option \<Rightarrow> error + frame" where
  "local_top_tacklers srt df top_n min_age max_age =
     (case local_candidates df min_age max_age of
        Inl e \<Rightarrow> Inl e
      | Inr df2 \<Rightarrow> local_ranked srt (choose_age_col (columns df)) df2 top_n)"

text \<open>
  The scraping client is outside the repository.  It is a parameter: what the league
  request returns or raises for a season, and what the player request returns or raises
  for a player.
\<close>

record scraper =
  scrape_player_league_stats :: "string \<Rightarrow> error + frame"
  scrape_player_info :: "cell \<Rightarrow> error + (string \<rightharpoonup> cell)"

text \<open>The message of the \<^verbatim>\<open>RuntimeError\<close> of lines 74 to 79.\<close>

definition seasons_message :: string where
  "seasons_message =
     ''ScraperFC failed while fetching seasons from Sofascore '' @
     ''(missing 'seasons' key in API response). '' @
     ''Either update ScraperFC / try again later, or create '' @
     '''tackles_joined.csv' and let this function load from it instead.''"

text \<open>Lines 65 to 79: a \<^verbatim>\<open>KeyError\<close> of the league request is replaced; any other exception propagates.\<close>

definition fetch_league_stats :: "scraper \<Rightarrow> string \<Rightarrow> error + frame" where
  "fetch_league_stats ss season =
     (case scrape_player_league_stats ss season of
        Inl (KeyError k) \<Rightarrow> Inl (RuntimeError seasons_message)
      | Inl e \<Rightarrow> Inl e
      | Inr df \<Rightarrow> Inr df)"

text \<open>\<^verbatim>\<open>Series.unique()\<close>: the distinct values in order of first appearance.\<close>

definition unique :: "'a list \<Rightarrow> 'a list" where
  "unique xs = rev (remdups (rev xs))"

definition dict_get :: "(string \<rightharpoonup> cell) \<Rightarrow> string \<Rightarrow> cell" where
  "dict_get d k = (case d k of None \<Rightarrow> NoneV | Some v \<Rightarrow> v)"

text \<open>Lines 86 to 100: a player whose request raises is skipped.\<close>

fun fetch_player_info :: "scraper \<Rightarrow> cell list \<Rightarrow> cell list list" where
  "fetch_player_info ss [] = []"
| "fetch_player_info ss (player # ps) =
     (case scrape_player_info ss player of
        Inl e \<Rightarrow> fetch_player_info ss ps
      | Inr info \<Rightarrow> [player, dict_get info ''age'', dict_get info ''position'',
                      dict_get info ''nationality''] # fetch_player_info ss ps)"

text \<open>
  \<^verbatim>\<open>df.merge(player_info_df, on="player", how="left")\<close>: every left row once per
  matching right row, or once with NaN when there is none; labels present on both sides
  get the suffixes \<^verbatim>\<open>_x\<close> and \<^verbatim>\<open>_y\<close>.
\<close>

definition drop_nth :: "nat \<Rightarrow> 'a list \<Rightarrow> 'a list" where
  "drop_nth k xs = take k xs @ drop (Suc k) xs"

definition merge_left_on_player :: "frame \<Rightarrow> frame \<Rightarrow> frame" where
  "merge_left_on_player left right =
     (let lk = index_of (columns left) ''player'';
          rk = index_of (columns right) ''player'';
          lcols = map (\<lambda>c. if c \<noteq> ''player'' \<and> c \<in> set (columns right) then c @ ''_x'' else c) (columns left);
          rcols = map (\<lambda>c. if c \<in> set (columns left) then c @ ''_y'' else c) (drop_nth rk (columns right))
      in \<lparr>columns = lcols @ rcols,
          rows = concat (map (\<lambda>l.
                   case filter (\<lambda>r. r ! rk = l ! lk) (rows right) of
                     [] \<Rightarrow> [l @ replicate (length rcols) (Num NaN)]
                   | ms \<Rightarrow> map (\<lambda>r. l @ drop_nth rk r) ms) (rows left))\<rparr>)"

text \<open>Lines 63 to 123: the path taken when the file does not exist.\<close>

definition scraped_top_tacklers ::
  "argsort \<Rightarrow> scraper \<Rightarrow> string \<Rightarrow> int \<Rightarrow> int option \<Rightarrow> int option \<Rightarrow> error + frame" where
  "scraped_top_tacklers srt ss season top_n min_age max_age =
     (case fetch_league_stats ss season of
        Inl e \<Rightarrow> Inl e
      | Inr df0 \<Rightarrow>
        (case select_cols df0 [''player'', ''team'', ''tackles'', ''position'', ''age''] of
           Inl e \<Rightarrow> Inl e
         | Inr df1 \<Rightarrow>
           (case dropna df1 ''tackles'' of
              Inl e \<Rightarrow> Inl e
            | Inr df2 \<Rightarrow>
              (let player_info = fetch_player_info ss
                     (unique (map (\<lambda>r. r ! index_of (columns df2) ''player'') (rows df2)));
                   df3 = (if player_info \<noteq> []
                          then merge_left_on_player df2
                                 \<lparr>columns = [''player'', ''age'', ''position'', ''nationality''],
                                  rows = player_info\<rparr>
                          else set_col (set_col (set_col df2
                                 ''age'' (replicate (length (rows df2)) NoneV))
                                 ''position'' (replicate (length (rows df2)) NoneV))
                                 ''nationality'' (replicate (length (rows df2)) NoneV))
               in case age_filter ''age'' min_age max_age df3 of
                    Inl e \<Rightarrow> Inl e
                  | Inr df4 \<Rightarrow>
                    (case sort_values srt df4 ''tackles'' False of
                       Inl e \<Rightarrow> Inl e
                     | Inr df5 \<Rightarrow> select_cols (head top_n df5) output_columns)))))"

text \<open>What the function reads from outside: the file, when it exists, and the scraping client.\<close>

record environment =
  csv_file :: "frame option"
  sofascore :: scraper

definition get_top_tacklers_super_lig ::
  "argsort \<Rightarrow> environment \<Rightarrow> string \<Rightarrow> int \<Rightarrow> int option \<Rightarrow> int option \<Rightarrow> error + frame" where
  "get_top_tacklers_super_lig srt env season top_n min_age max_age =
     (case csv_file env of
        Some df \<Rightarrow> local_top_tacklers srt df top_n min_age max_age
      | None \<Rightarrow> scraped_top_tacklers srt (sofascore env) season top_n min_age max_age)"

section \<open>Dashboard (\<^verbatim>\<open>main\<close>, dashboard.py)\<close>

datatype nationality_choice = AllPlayers | TurkishPlayers | ForeignPlayers

text \<open>The country name compared against, in UTF-8.\<close>

definition turkiye :: string where
  "turkiye = [CHR ''T'', CHR 0xC3, CHR 0xBC, CHR ''r'', CHR ''k'', CHR ''i'', CHR ''y'', CHR ''e'']"

text \<open>Lines 270 to 272: both bounds must hold, so a row with a missing age is dropped.\<close>

definition age_range_filter :: "string \<Rightarrow> int \<times> int \<Rightarrow> frame \<Rightarrow> error + frame" where
  "age_range_filter age_col age_range df =
     filter_rows (\<lambda>r. case cell_ge (r ! index_of (columns df) age_col) (fst age_range) of
                          Inl e \<Rightarrow> Inl e
                        | Inr a \<Rightarrow> (case cell_le (r ! index_of (columns df) age_col) (snd age_range) of
                                     Inl e \<Rightarrow> Inl e
                                   | Inr b \<Rightarrow> Inr (a \<and> b))) df"

text \<open>Lines 275 to 279.\<close>

definition nationality_filter :: "nationality_choice \<Rightarrow> frame \<Rightarrow> frame" where
  "nationality_filter choice df =
     (if ''country'' \<in> set (columns df)
      then (case choice of
              AllPlayers \<Rightarrow> df
            | TurkishPlayers \<Rightarrow>
                df\<lparr>rows := filter (\<lambda>r. r ! index_of (columns df) ''country'' = Str turkiye) (rows df)\<rparr>
            | ForeignPlayers \<Rightarrow>
                df\<lparr>rows := filter (\<lambda>r. r ! index_of (columns df) ''country'' \<noteq> Str turkiye
                                        \<and> \<not> isna (r ! index_of (columns df) ''country'')) (rows df)\<rparr>)
      else df)"

text \<open>Lines 322 to 327: the extra columns handed to the Leaderboard Builder.\<close>

definition dashboard_extra_cols :: "frame \<Rightarrow> string option \<Rightarrow> string list" where
  "dashboard_extra_cols df age_col =
     (case age_col of None \<Rightarrow> [] | Some a \<Rightarrow> [a]) @
     (if ''country'' \<in> set (columns df) then [''country''] else [])"

text \<open>Lines 282 to 305: the metrics of the dashboard, each with its percentage flag.\<close>

definition metric_groups :: "(string \<times> (string \<times> bool) list) list" where
  "metric_groups =
     [(''Attacking'',
        [(''goals'', False), (''assists'', False), (''totalShots'', False),
         (''shotsOnTarget'', False), (''expectedGoals'', False)]),
      (''Possession & Passing'',
        [(''accuratePassesPercentage'', True), (''keyPasses'', False),
         (''accurateFinalThirdPasses'', False), (''accurateLongBallsPercentage'', True)]),
      (''Defending'',
        [(''tackles'', False), (''interceptions'', False), (''clearances'', False),
         (''groundDuelsWon'', False), (''groundDuelsWonPercentage'', True),
         (''totalDuelsWon'', False), (''totalDuelsWonPercentage'', True)])]"

text \<open>
  The table of one card: the filters of lines 270 to 279 and the call of lines 329 to 336.
  The result is \<open>None\<close> when the metric is not a column, in which case the card is skipped
  (line 317).
\<close>

definition dashboard_table ::
  "argsort \<Rightarrow> frame \<Rightarrow> int \<times> int \<Rightarrow> nationality_choice \<Rightarrow> bool \<Rightarrow> int \<Rightarrow> string \<Rightarrow> bool
     \<Rightarrow> (error + frame) option" where
  "dashboard_table srt df0 age_range choice per_90 min_minutes metric is_percentage =
     (let age_col = choose_age_col (columns df0) in
      case (case age_col of None \<Rightarrow> Inr df0 | Some a \<Rightarrow> age_range_filter a age_range df0) of
        Inl e \<Rightarrow> Some (Inl e)
      | Inr df1 \<Rightarrow>
        (let df = nationality_filter choice df1 in
         if metric \<notin> set (columns df) then None
         else let extra_cols = dashboard_extra_cols df age_col in
              Some (build_top_table srt df metric (per_90 \<and> \<not> is_percentage) min_minutes False
                      (if extra_cols \<noteq> [] then Some extra_cols else None))))"

section \<open>Notions used in the statements\<close>

text \<open>The order of two positions in a sort by key: ascending or descending.\<close>

definition key_order :: "fval list \<Rightarrow> bool \<Rightarrow> nat \<Rightarrow> nat \<Rightarrow> bool" where
  "key_order ks ascending i j = (if ascending then fle (ks ! i) (ks ! j) else fle (ks ! j) (ks ! i))"

definition qualifies :: "frame \<Rightarrow> int \<Rightarrow> cell list \<Rightarrow> bool" where
  "qualifies df min_minutes r =
     (''minutesPlayed'' \<in> set (columns df) \<and> 0 < min_minutes \<longrightarrow>
        cell_ge (r ! index_of (columns df) ''minutesPlayed'') min_minutes = Inr True)"

fun key_of_cell :: "cell \<Rightarrow> fval" where
  "key_of_cell (Num x) = x"
| "key_of_cell _ = NaN"

definition row_order :: "nat \<Rightarrow> bool \<Rightarrow> cell list \<Rightarrow> cell list \<Rightarrow> bool" where
  "row_order i ascending r r' =
     (if ascending then fle (key_of_cell (r ! i)) (key_of_cell (r' ! i))
      else fle (key_of_cell (r' ! i)) (key_of_cell (r ! i)))"


definition carries :: "string list \<Rightarrow> string list \<Rightarrow> string \<Rightarrow> cell list \<Rightarrow> cell list \<Rightarrow> bool" where
  "carries cols cols1 mc r r1 =
     (\<forall>d\<in>set cols. d \<noteq> mc \<longrightarrow> r1 ! index_of cols1 d = r ! index_of cols d)"

definition per90_row :: "string list \<Rightarrow> string list \<Rightarrow> string \<Rightarrow> cell list \<Rightarrow> cell list \<Rightarrow> bool" where
  "per90_row cols cols1 metric r r1 =
     (\<exists>m mins. r ! index_of cols metric = Num m
        \<and> r ! index_of cols ''minutesPlayed'' = Num mins
        \<and> r1 ! index_of cols1 (metric @ ''_per90'') = Num (fdiv m (fdiv mins (Fin 90))))"

section \<open>Example tables\<close>

text \<open>
  Four players: one with minutes, one with zero minutes and goals, one whose minutes are
  missing, one with zero minutes and no goal.
\<close>

definition minutes_table :: frame where
  "minutes_table = \<lparr>columns = [''player'', ''team'', ''goals'', ''minutesPlayed''],
     rows = [[Str ''A'', Str ''T1'', Num (Fin 3), Num (Fin 900)],
             [Str ''B'', Str ''T2'', Num (Fin 5), Num (Fin 0)],
             [Str ''C'', Str ''T1'', Num (Fin 7), Num NaN],
             [Str ''D'', Str ''T3'', Num (Fin 0), Num (Fin 0)]]\<rparr>"

text \<open>
  No local file, and a scraping client whose league request raises
  \<^verbatim>\<open>KeyError('seasons')\<close>.
\<close>

definition drifted_environment :: environment where
  "drifted_environment =
     \<lparr>csv_file = None,
      sofascore = \<lparr>scrape_player_league_stats = (\<lambda>year. Inl (KeyError ''seasons'')),
                   scrape_player_info = (\<lambda>player. Inl (OtherError ''not found''))\<rparr>\<rparr>"

text \<open>The label under which a selected column is displayed (step 7 of the specification).\<close>

definition display_label :: "string \<Rightarrow> string \<Rightarrow> string \<Rightarrow> string" where
  "display_label metric_col pretty_name c =
     (let c1 = (if c = metric_col then pretty_name else c) in
      if c1 = ''age'' \<or> c1 = ''age_x'' \<or> c1 = ''age_y'' then ''Age''
      else if c1 = ''country'' then ''Country''
      else c1)"


definition ranking_col :: "frame \<Rightarrow> string \<Rightarrow> bool \<Rightarrow> string" where
  "ranking_col df metric per_90 =
     (if per_90 \<and> ''minutesPlayed'' \<in> set (columns df) then metric @ ''_per90'' else metric)"

definition squad_table :: frame where
  "squad_table = \<lparr>columns = [''player'', ''team'', ''goals'', ''minutesPlayed'', ''age_x'', ''country''],
     rows = [[Str ''P01'', Str ''T1'', Num (Fin 12), Num (Fin 900), Num (Fin 24), Str ''Brazil''],
             [Str ''P02'', Str ''T1'', Num (Fin 9), Num (Fin 1200), Num (Fin 31), Str ''Ghana''],
             [Str ''P03'', Str ''T2'', Num (Fin 9), Num (Fin 450), Num (Fin 19), Str ''Norway''],
             [Str ''P04'', Str ''T2'', Num (Fin 7), Num (Fin 200), Num (Fin 22), Str ''Spain''],
             [Str ''P05'', Str ''T3'', Num (Fin 6), Num (Fin 990), Num NaN, Str ''Chile''],
             [Str ''P06'', Str ''T3'', Num (Fin 5), Num (Fin 1500), Num (Fin 28), Num NaN],
             [Str ''P07'', Str ''T4'', Num (Fin 4), Num (Fin 360), Num (Fin 27), Str ''Japan''],
             [Str ''P08'', Str ''T4'', Num (Fin 3), Num (Fin 720), Num (Fin 33), Str ''Mali''],
             [Str ''P09'', Str ''T5'', Num (Fin 2), Num (Fin 810), Num (Fin 21), Str ''Peru''],
             [Str ''P10'', Str ''T5'', Num (Fin 1), Num (Fin 1000), Num (Fin 26), Str ''Italy''],
             [Str ''P11'', Str ''T6'', Num (Fin 1), Num (Fin 300), Num (Fin 18), Str ''Egypt''],
             [Str ''P12'', Str ''T6'', Num (Fin 0), Num (Fin 640), Num (Fin 35), Str ''Cuba'']]\<rparr>"

section \<open>Properties of the Number Formatter\<close>












section \<open>Properties of the table operations\<close>

lemma collect_map_Inr: "collect (map Inr ys) = Inr ys"
  by (induction ys) auto

lemma collect_eq_Inr: "collect xs = Inr ys \<longleftrightarrow> xs = map Inr ys"
proof
  show "collect xs = Inr ys \<Longrightarrow> xs = map Inr ys"
    by (induction xs arbitrary: ys) (auto split: sum.splits)
qed (simp add: collect_map_Inr)

lemma collect_total:
  "(\<And>x. x \<in> set xs \<Longrightarrow> \<exists>v. f x = Inr v) \<Longrightarrow> \<exists>ys. collect (map f xs) = Inr ys"
proof (induction xs)
  case Nil
  then show ?case by simp
next
  case (Cons a xs)
  then obtain v where v: "f a = Inr v" by auto
  from Cons obtain ys where "collect (map f xs) = Inr ys" by auto
  with v show ?case by simp
qed

lemma keep_filter:
  "map f xs = map Inr ks \<Longrightarrow> map fst (filter snd (zip xs ks)) = filter (\<lambda>x. f x = Inr True) xs"
  by (induction xs arbitrary: ks) auto

lemma filter_rows_Inr:
  assumes "filter_rows p df = Inr df'"
  shows "df' = df\<lparr>rows := filter (\<lambda>r. p r = Inr True) (rows df)\<rparr>"
  using assms
  by (auto simp: filter_rows_def collect_eq_Inr keep_filter split: sum.splits)

lemma fle_total: "a \<noteq> NaN \<Longrightarrow> b \<noteq> NaN \<Longrightarrow> fle a b \<or> fle b a"
  by (cases a; cases b) auto

lemma fle_trans: "fle a b \<Longrightarrow> fle b c \<Longrightarrow> fle a c"
  by (cases a; cases b; cases c) auto

lemma mset_insert_idx: "mset (insert_idx ks i js) = add_mset i (mset js)"
  by (induction js) auto

lemma mset_insertion_argsort_aux: "mset (foldr (insert_idx ks) xs []) = mset xs"
  by (induction xs) (auto simp: mset_insert_idx)

lemma set_insert_idx: "set (insert_idx ks i js) = insert i (set js)"
  by (induction js) auto

lemma sorted_insert_idx:
  assumes "sorted_wrt (\<lambda>i j. fle (ks ! i) (ks ! j)) js"
    and "ks ! i \<noteq> NaN" and "\<forall>j\<in>set js. ks ! j \<noteq> NaN"
  shows "sorted_wrt (\<lambda>i j. fle (ks ! i) (ks ! j)) (insert_idx ks i js)"
  using assms
proof (induction js)
  case Nil
  then show ?case by simp
next
  case (Cons j js)
  show ?case
  proof (cases "fle (ks ! i) (ks ! j)")
    case True
    with Cons.prems show ?thesis by (auto intro: fle_trans)
  next
    case False
    with Cons.prems have "fle (ks ! j) (ks ! i)" using fle_total by auto
    with Cons False show ?thesis by (auto simp: set_insert_idx)
  qed
qed

lemma sorted_insertion_argsort_aux:
  "\<forall>j\<in>set xs. ks ! j \<noteq> NaN \<Longrightarrow>
   sorted_wrt (\<lambda>i j. fle (ks ! i) (ks ! j)) (foldr (insert_idx ks) xs [])"
proof (induction xs)
  case Nil
  then show ?case by simp
next
  case (Cons x xs)
  have "set (foldr (insert_idx ks) xs []) = set xs"
    using mset_insertion_argsort_aux [of ks xs] by (metis set_mset_mset)
  with Cons show ?case by (auto intro!: sorted_insert_idx)
qed

lemma argsort_ok_insertion: "argsort_ok insertion_argsort"
  unfolding argsort_ok_def insertion_argsort_def
proof (intro allI impI conjI)
  fix ks :: "fval list"
  show "mset (foldr (insert_idx ks) [0..<length ks] []) = mset [0..<length ks]"
    by (rule mset_insertion_argsort_aux)
  assume "NaN \<notin> set ks"
  then have "\<forall>j\<in>set [0..<length ks]. ks ! j \<noteq> NaN" by (auto simp: in_set_conv_nth)
  then show "sorted_wrt (\<lambda>i j. fle (ks ! i) (ks ! j)) (foldr (insert_idx ks) [0..<length ks] [])"
    by (rule sorted_insertion_argsort_aux)
qed

lemma mset_map_nth_perm:
  assumes "mset p = mset [0..<length xs]"
  shows "mset (map ((!) xs) p) = mset xs"
proof -
  have "mset (map ((!) xs) p) = image_mset ((!) xs) (mset p)" by simp
  also have "\<dots> = image_mset ((!) xs) (mset [0..<length xs])" using assms by simp
  also have "\<dots> = mset (map ((!) xs) [0..<length xs])" by simp
  also have "\<dots> = mset xs" by (simp add: map_nth)
  finally show ?thesis .
qed

text \<open>The part of \<open>nargsort\<close> that orders the keys that are not NaN.\<close>

lemma argsort_part:
  assumes ok: "argsort_ok srt" and nn: "\<forall>i\<in>set idx. ks ! i \<noteq> NaN"
  shows "mset (map ((!) idx) (srt (map ((!) ks) idx))) = mset idx"
    and "sorted_wrt (\<lambda>i j. fle (ks ! i) (ks ! j)) (map ((!) idx) (srt (map ((!) ks) idx)))"
proof -
  let ?keys = "map ((!) ks) idx"
  have "NaN \<notin> set ?keys" using nn by auto
  with ok have m: "mset (srt ?keys) = mset [0..<length ?keys]"
    and s: "sorted_wrt (\<lambda>i j. fle (?keys ! i) (?keys ! j)) (srt ?keys)"
    by (auto simp: argsort_ok_def)
  from m have m': "mset (srt ?keys) = mset [0..<length idx]" by simp
  then show "mset (map ((!) idx) (srt ?keys)) = mset idx" by (rule mset_map_nth_perm)
  from m' have "set (srt ?keys) = {0..<length idx}" by (metis set_mset_mset set_upt)
  then have "\<forall>i\<in>set (srt ?keys). i < length idx" by auto
  then have "sorted_wrt (\<lambda>i j. fle (ks ! (idx ! i)) (ks ! (idx ! j))) (srt ?keys)"
    using s by (auto intro: sorted_wrt_mono_rel [rotated])
  then show "sorted_wrt (\<lambda>i j. fle (ks ! i) (ks ! j)) (map ((!) idx) (srt ?keys))"
    by (simp add: sorted_wrt_map)
qed

lemma key_order_simps:
  "key_order ks True = (\<lambda>i j. fle (ks ! i) (ks ! j))"
  "key_order ks False = (\<lambda>i j. fle (ks ! j) (ks ! i))"
  by (simp_all add: key_order_def fun_eq_iff)

lemma nargsort_split:
  assumes ok: "argsort_ok srt"
  shows "\<exists>a. nargsort srt ks asc = a @ filter (\<lambda>i. ks ! i = NaN) [0..<length ks]
     \<and> mset a = mset (filter (\<lambda>i. ks ! i \<noteq> NaN) [0..<length ks])
     \<and> sorted_wrt (key_order ks asc) a"
proof (cases asc)
  case True
  let ?idx = "filter (\<lambda>i. ks ! i \<noteq> NaN) [0..<length ks]"
  have nn: "\<forall>i\<in>set ?idx. ks ! i \<noteq> NaN" by simp
  from argsort_part [OF ok nn] True show ?thesis
    by (simp add: nargsort_def Let_def key_order_simps)
next
  case False
  let ?idx = "rev (filter (\<lambda>i. ks ! i \<noteq> NaN) [0..<length ks])"
  have nn: "\<forall>i\<in>set ?idx. ks ! i \<noteq> NaN" by simp
  let ?a = "map ((!) ?idx) (srt (map ((!) ks) ?idx))"
  from argsort_part [OF ok nn] have m: "mset ?a = mset ?idx"
    and s: "sorted_wrt (\<lambda>i j. fle (ks ! i) (ks ! j)) ?a" by blast+
  have n: "nargsort srt ks asc = rev ?a @ filter (\<lambda>i. ks ! i = NaN) [0..<length ks]"
    using False by (simp add: nargsort_def Let_def rev_map)
  have "sorted_wrt (key_order ks asc) (rev ?a)"
    using s False by (simp only: key_order_simps sorted_wrt_rev)
  moreover have "mset (rev ?a) = mset (filter (\<lambda>i. ks ! i \<noteq> NaN) [0..<length ks])"
    using m by simp
  ultimately show ?thesis using n by blast
qed

lemma nargsort_mset:
  assumes ok: "argsort_ok srt"
  shows "mset (nargsort srt ks asc) = mset [0..<length ks]"
proof -
  from nargsort_split [OF ok, of ks asc] obtain a where
    a: "nargsort srt ks asc = a @ filter (\<lambda>i. ks ! i = NaN) [0..<length ks]"
    and m: "mset a = mset (filter (\<lambda>i. ks ! i \<noteq> NaN) [0..<length ks])" by blast
  have "mset (nargsort srt ks asc) =
     filter_mset (\<lambda>i. ks ! i \<noteq> NaN) (mset [0..<length ks]) + filter_mset (\<lambda>i. \<not> ks ! i \<noteq> NaN) (mset [0..<length ks])"
    unfolding a using m by simp
  then show ?thesis by (simp only: multiset_partition [symmetric])
qed

lemma index_of_less: "c \<in> set cols \<Longrightarrow> index_of cols c < length cols"
  unfolding index_of_def by (induction cols) auto

lemma nth_index_of: "c \<in> set cols \<Longrightarrow> cols ! index_of cols c = c"
  unfolding index_of_def by (induction cols) auto

lemma index_of_append: "c \<in> set cols \<Longrightarrow> index_of (cols @ ds) c = index_of cols c"
  unfolding index_of_def by (induction cols) auto

lemma index_of_append_new: "c \<notin> set cols \<Longrightarrow> index_of (cols @ [c]) c = length cols"
  unfolding index_of_def by (induction cols) auto

lemma index_of_eq: "c \<in> set cols \<Longrightarrow> index_of cols c = index_of cols d \<Longrightarrow> c = d"
  unfolding index_of_def
proof (induction cols)
  case Nil
  then show ?case by simp
next
  case (Cons a cols)
  then show ?case by (auto split: if_splits)
qed

lemma wf_frame_rows: "wf_frame df \<Longrightarrow> r \<in> set (rows df) \<Longrightarrow> length r = length (columns df)"
  by (auto simp: wf_frame_def list_all_iff)

lemma filter_rows_total:
  "(\<And>r. r \<in> set (rows df) \<Longrightarrow> \<exists>b. p r = Inr b) \<Longrightarrow> \<exists>df'. filter_rows p df = Inr df'"
  using collect_total [of "rows df" p] by (auto simp: filter_rows_def)

lemma wf_frame_filter: "wf_frame df \<Longrightarrow> wf_frame (df\<lparr>rows := filter P (rows df)\<rparr>)"
  by (auto simp: wf_frame_def list_all_iff)

lemma minutes_filter_Inr:
  assumes "minutes_filter df m = Inr work"
  shows "work = df\<lparr>rows := filter (qualifies df m) (rows df)\<rparr>"
proof (cases "''minutesPlayed'' \<in> set (columns df) \<and> 0 < m")
  case True
  with assms have "work = df\<lparr>rows := filter (\<lambda>r. cell_ge (r ! index_of (columns df) ''minutesPlayed'') m = Inr True) (rows df)\<rparr>"
    by (simp add: minutes_filter_def filter_rows_Inr)
  moreover have "qualifies df m = (\<lambda>r. cell_ge (r ! index_of (columns df) ''minutesPlayed'') m = Inr True)"
    using True by (simp add: qualifies_def fun_eq_iff)
  ultimately show ?thesis by simp
next
  case False
  then have "filter (qualifies df m) (rows df) = rows df" by (auto simp: qualifies_def)
  with False assms show ?thesis by (auto simp: minutes_filter_def)
qed

lemma numeric_col_cell:
  "numeric_col df c \<Longrightarrow> r \<in> set (rows df) \<Longrightarrow> \<exists>x. r ! index_of (columns df) c = Num x"
proof -
  assume "numeric_col df c" "r \<in> set (rows df)"
  then have "case r ! index_of (columns df) c of Num x \<Rightarrow> True | _ \<Rightarrow> False"
    by (auto simp: numeric_col_def list_all_iff)
  then show ?thesis by (cases "r ! index_of (columns df) c") auto
qed

lemma minutes_filter_total:
  assumes "''minutesPlayed'' \<in> set (columns df) \<longrightarrow> numeric_col df ''minutesPlayed''"
  shows "\<exists>work. minutes_filter df m = Inr work"
proof (cases "''minutesPlayed'' \<in> set (columns df) \<and> 0 < m")
  case True
  with assms have n: "numeric_col df ''minutesPlayed''" by simp
  have "\<exists>df'. filter_rows (\<lambda>r. cell_ge (r ! index_of (columns df) ''minutesPlayed'') m) df = Inr df'"
  proof (rule filter_rows_total)
    fix r assume "r \<in> set (rows df)"
    with n obtain x where "r ! index_of (columns df) ''minutesPlayed'' = Num x"
      using numeric_col_cell by blast
    then show "\<exists>b. cell_ge (r ! index_of (columns df) ''minutesPlayed'') m = Inr b" by simp
  qed
  with True show ?thesis by (simp add: minutes_filter_def)
next
  case False
  then show ?thesis by (auto simp: minutes_filter_def)
qed

lemma set_col_columns:
  "set (columns (set_col df c vals)) = insert c (set (columns df))"
  by (auto simp: set_col_def)

lemma set_col_length: "length vals = length (rows df) \<Longrightarrow> length (rows (set_col df c vals)) = length (rows df)"
  by (simp add: set_col_def)

lemma set_col_wf:
  assumes "wf_frame df" "length vals = length (rows df)"
  shows "wf_frame (set_col df c vals)"
  using assms
  by (auto simp: set_col_def wf_frame_def list_all_iff dest!: set_zip_leftD)

lemma set_col_nth_new:
  assumes "wf_frame df" "length vals = length (rows df)" "k < length (rows df)"
  shows "rows (set_col df c vals) ! k ! index_of (columns (set_col df c vals)) c = vals ! k"
proof -
  have len: "length (rows df ! k) = length (columns df)"
    using assms by (simp add: wf_frame_rows)
  show ?thesis
  proof (cases "c \<in> set (columns df)")
    case True
    then show ?thesis using assms len by (simp add: set_col_def index_of_less)
  next
    case False
    then show ?thesis using assms len
      by (simp add: set_col_def index_of_append_new nth_append)
  qed
qed

lemma set_col_nth_old:
  assumes "wf_frame df" "length vals = length (rows df)" "k < length (rows df)"
    and "d \<in> set (columns df)" "d \<noteq> c"
  shows "rows (set_col df c vals) ! k ! index_of (columns (set_col df c vals)) d
         = rows df ! k ! index_of (columns df) d"
proof -
  have len: "length (rows df ! k) = length (columns df)"
    using assms by (simp add: wf_frame_rows)
  show ?thesis
  proof (cases "c \<in> set (columns df)")
    case True
    have "index_of (columns df) c \<noteq> index_of (columns df) d"
      using True assms(5) index_of_eq by metis
    then show ?thesis using True assms len by (simp add: set_col_def)
  next
    case False
    then show ?thesis using assms len
      by (simp add: set_col_def index_of_append nth_append index_of_less)
  qed
qed

lemma sort_key_of_Inr:
  "sort_key_of c = Inr x \<Longrightarrow> key_of_cell c = x \<and> (isna c \<longleftrightarrow> x = NaN)"
  by (cases c) (auto elim: isna.elims)


lemma sort_values_Inr:
  assumes ok: "argsort_ok srt" and sv: "sort_values srt df by asc = Inr df'"
  shows "columns df' = columns df"
    and "mset (rows df') = mset (rows df)"
    and "\<exists>xs ys. rows df' = xs @ ys
          \<and> (\<forall>r\<in>set xs. \<not> isna (r ! index_of (columns df) by))
          \<and> (\<forall>r\<in>set ys. isna (r ! index_of (columns df) by))
          \<and> sorted_wrt (row_order (index_of (columns df) by) asc) xs"
proof -
  let ?i = "index_of (columns df) by"
  from sv obtain ks where
    ks: "map (\<lambda>r. sort_key_of (r ! ?i)) (rows df) = map Inr ks"
    and df': "df' = df\<lparr>rows := map (\<lambda>k. rows df ! k) (nargsort srt ks asc)\<rparr>"
    by (auto simp: sort_values_def collect_eq_Inr split: if_splits sum.splits)
  from ks have len: "length ks = length (rows df)" by (metis length_map)
  have key: "sort_key_of (rows df ! k ! ?i) = Inr (ks ! k)" if "k < length (rows df)" for k
  proof -
    have "map (\<lambda>r. sort_key_of (r ! ?i)) (rows df) ! k = map Inr ks ! k" using ks by simp
    then show ?thesis using that len by simp
  qed
  show "columns df' = columns df" using df' by simp
  have "mset (map ((!) (rows df)) (nargsort srt ks asc)) = mset (rows df)"
    by (rule mset_map_nth_perm) (simp add: nargsort_mset [OF ok] len)
  then show "mset (rows df') = mset (rows df)" using df' by simp
  from nargsort_split [OF ok, of ks asc] obtain a where
    a: "nargsort srt ks asc = a @ filter (\<lambda>i. ks ! i = NaN) [0..<length ks]"
    and ma: "mset a = mset (filter (\<lambda>i. ks ! i \<noteq> NaN) [0..<length ks])"
    and sa: "sorted_wrt (key_order ks asc) a" by blast
  from ma have "set a = set (filter (\<lambda>i. ks ! i \<noteq> NaN) [0..<length ks])"
    by (metis set_mset_mset)
  then have ina: "\<forall>k\<in>set a. k < length (rows df) \<and> ks ! k \<noteq> NaN" using len by auto
  let ?xs = "map ((!) (rows df)) a"
  let ?ys = "map ((!) (rows df)) (filter (\<lambda>i. ks ! i = NaN) [0..<length ks])"
  have 1: "rows df' = ?xs @ ?ys" using df' a by simp
  have 2: "\<forall>r\<in>set ?xs. \<not> isna (r ! ?i)"
  proof
    fix r assume "r \<in> set ?xs"
    then obtain k where k: "k \<in> set a" "r = rows df ! k" by auto
    with ina key sort_key_of_Inr show "\<not> isna (r ! ?i)" by metis
  qed
  have 3: "\<forall>r\<in>set ?ys. isna (r ! ?i)"
  proof
    fix r assume "r \<in> set ?ys"
    then obtain k where k: "k < length (rows df)" "ks ! k = NaN" "r = rows df ! k"
      using len by auto
    with key sort_key_of_Inr show "isna (r ! ?i)" by metis
  qed
  have "sorted_wrt (\<lambda>k l. row_order ?i asc (rows df ! k) (rows df ! l)) a"
  proof (rule sorted_wrt_mono_rel [OF _ sa])
    fix k l assume "k \<in> set a" "l \<in> set a" "key_order ks asc k l"
    moreover from this ina key sort_key_of_Inr
    have "key_of_cell (rows df ! k ! ?i) = ks ! k" "key_of_cell (rows df ! l ! ?i) = ks ! l"
      by metis+
    ultimately show "row_order ?i asc (rows df ! k) (rows df ! l)"
      by (simp add: row_order_def key_order_def)
  qed
  then have 4: "sorted_wrt (row_order ?i asc) ?xs" by (simp add: sorted_wrt_map)
  from 1 2 3 4 show "\<exists>xs ys. rows df' = xs @ ys
          \<and> (\<forall>r\<in>set xs. \<not> isna (r ! ?i))
          \<and> (\<forall>r\<in>set ys. isna (r ! ?i))
          \<and> sorted_wrt (row_order ?i asc) xs" by blast
qed

lemma sort_values_total:
  assumes "by \<in> set (columns df)" "numeric_col df by"
  shows "\<exists>df'. sort_values srt df by asc = Inr df'"
proof -
  have "\<exists>ks. collect (map (\<lambda>r. sort_key_of (r ! index_of (columns df) by)) (rows df)) = Inr ks"
  proof (rule collect_total)
    fix r assume "r \<in> set (rows df)"
    with assms(2) obtain x where "r ! index_of (columns df) by = Num x"
      using numeric_col_cell by blast
    then show "\<exists>v. sort_key_of (r ! index_of (columns df) by) = Inr v" by simp
  qed
  with assms(1) show ?thesis by (auto simp: sort_values_def)
qed

lemma sort_values_wf:
  assumes ok: "argsort_ok srt" and sv: "sort_values srt df by asc = Inr df'" and wf: "wf_frame df"
  shows "wf_frame df'"
proof -
  have "set (rows df') = set (rows df)"
    using sort_values_Inr(2) [OF ok sv] by (metis set_mset_mset)
  with sort_values_Inr(1) [OF ok sv] wf show ?thesis
    by (simp add: wf_frame_def list_all_iff)
qed

lemma per90_cell:
  assumes "(case cell_div cm (Num (Fin 90)) of Inl e \<Rightarrow> Inl e | Inr d \<Rightarrow> cell_div c d) = Inr v"
  shows "\<exists>m mins. c = Num m \<and> cm = Num mins \<and> v = Num (fdiv m (fdiv mins (Fin 90)))"
proof -
  from assms obtain mins where cm: "cm = Num mins" by (cases cm) auto
  with assms have "cell_div c (Num (fdiv mins (Fin 90))) = Inr v" by simp
  then obtain m where "c = Num m" "v = Num (fdiv m (fdiv mins (Fin 90)))" by (cases c) auto
  with cm show ?thesis by blast
qed

lemma per90_stage_plain:
  assumes "\<not> (per_90 \<and> ''minutesPlayed'' \<in> set (columns work))"
    and "per90_stage work metric per_90 = Inr (w1, mc)"
  shows "w1 = work" "mc = metric"
  using assms by (auto simp: per90_stage_def)

lemma per90_stage_per90:
  assumes wf: "wf_frame work"
    and p: "per_90" "''minutesPlayed'' \<in> set (columns work)"
    and st: "per90_stage work metric per_90 = Inr (w1, mc)"
  shows "mc = metric @ ''_per90''"
    and "wf_frame w1"
    and "set (columns w1) = insert mc (set (columns work))"
    and "list_all2 (\<lambda>r r1. carries (columns work) (columns w1) mc r r1 \<and> per90_row (columns work) (columns w1) metric r r1) (rows work) (rows w1)"
proof -
  let ?f = "\<lambda>r. case cell_div (r ! index_of (columns work) ''minutesPlayed'') (Num (Fin 90)) of
                   Inl e \<Rightarrow> Inl e
                 | Inr d \<Rightarrow> cell_div (r ! index_of (columns work) metric) d"
  from st p have st': "(case collect (map ?f (rows work)) of
                   Inl e \<Rightarrow> Inl e
                 | Inr vals \<Rightarrow> Inr (set_col work (metric @ ''_per90'') vals, metric @ ''_per90''))
             = Inr (w1, mc)"
    unfolding per90_stage_def by (simp split: if_splits)
  then obtain vals where c: "collect (map ?f (rows work)) = Inr vals"
    by (cases "collect (map ?f (rows work))") simp_all
  with st' have w1: "w1 = set_col work (metric @ ''_per90'') vals"
    and mc: "mc = metric @ ''_per90''" by auto
  from c have vals: "map ?f (rows work) = map Inr vals" by (simp only: collect_eq_Inr)
  have len: "length vals = length (rows work)"
    using arg_cong [OF vals, of length] by simp
  show "mc = metric @ ''_per90''" by (rule mc)
  show "wf_frame w1" unfolding w1 using wf len by (rule set_col_wf)
  show "set (columns w1) = insert mc (set (columns work))"
    unfolding w1 mc by (rule set_col_columns)
  have len1: "length (rows w1) = length (rows work)"
    unfolding w1 using len by (rule set_col_length)
  show "list_all2 (\<lambda>r r1. carries (columns work) (columns w1) mc r r1 \<and> per90_row (columns work) (columns w1) metric r r1) (rows work) (rows w1)"
    unfolding list_all2_conv_all_nth
  proof (intro conjI allI impI)
    show "length (rows work) = length (rows w1)" using len1 by simp
  next
    fix k assume k: "k < length (rows work)"
    show "carries (columns work) (columns w1) mc (rows work ! k) (rows w1 ! k)"
      unfolding carries_def
    proof (intro ballI impI)
      fix d assume "d \<in> set (columns work)" "d \<noteq> mc"
      then show "rows w1 ! k ! index_of (columns w1) d = rows work ! k ! index_of (columns work) d"
        unfolding w1 mc by (rule set_col_nth_old [OF wf len k])
    qed
  next
    fix k assume k: "k < length (rows work)"
    have "map ?f (rows work) ! k = map Inr vals ! k" using vals by simp
    then have "?f (rows work ! k) = Inr (vals ! k)" using k len by simp
    from per90_cell [OF this] obtain m mins where
      "rows work ! k ! index_of (columns work) metric = Num m"
      "rows work ! k ! index_of (columns work) ''minutesPlayed'' = Num mins"
      "vals ! k = Num (fdiv m (fdiv mins (Fin 90)))" by blast
    moreover have "rows w1 ! k ! index_of (columns w1) (metric @ ''_per90'') = vals ! k"
      unfolding w1 by (rule set_col_nth_new [OF wf len k])
    ultimately show "per90_row (columns work) (columns w1) metric (rows work ! k) (rows w1 ! k)"
      unfolding per90_row_def by simp
  qed
qed

lemma per90_stage_total:
  assumes "metric \<in> set (columns work)" "numeric_col work metric"
    and "''minutesPlayed'' \<in> set (columns work) \<longrightarrow> numeric_col work ''minutesPlayed''"
  shows "\<exists>w1 mc. per90_stage work metric per_90 = Inr (w1, mc)"
proof (cases "per_90 \<and> ''minutesPlayed'' \<in> set (columns work)")
  case True
  let ?f = "\<lambda>r. case cell_div (r ! index_of (columns work) ''minutesPlayed'') (Num (Fin 90)) of
                   Inl e \<Rightarrow> Inl e
                 | Inr d \<Rightarrow> cell_div (r ! index_of (columns work) metric) d"
  have "\<exists>vals. collect (map ?f (rows work)) = Inr vals"
  proof (rule collect_total)
    fix r assume r: "r \<in> set (rows work)"
    from True assms(3) r obtain mins where "r ! index_of (columns work) ''minutesPlayed'' = Num mins"
      using numeric_col_cell by blast
    moreover from assms(2) r obtain m where "r ! index_of (columns work) metric = Num m"
      using numeric_col_cell by blast
    ultimately show "\<exists>v. ?f r = Inr v" by simp
  qed
  with True assms(1) show ?thesis by (auto simp: per90_stage_def)
next
  case False
  then show ?thesis by (auto simp: per90_stage_def)
qed

lemma per90_stage_Inr:
  assumes wf: "wf_frame work" and st: "per90_stage work metric per_90 = Inr (w1, mc)"
  shows "wf_frame w1"
    and "set (columns work) \<subseteq> set (columns w1)"
    and "list_all2 (carries (columns work) (columns w1) mc) (rows work) (rows w1)"
    and "set (columns w1) \<subseteq> insert mc (set (columns work))"
proof -
  show "set (columns w1) \<subseteq> insert mc (set (columns work))"
    using per90_stage_per90(3) [OF wf _ _ st] per90_stage_plain(1) [OF _ st] by blast
  show "wf_frame w1"
    using per90_stage_per90(2) [OF wf _ _ st] per90_stage_plain(1) [OF _ st] wf by blast
  show "set (columns work) \<subseteq> set (columns w1)"
    using per90_stage_per90(3) [OF wf _ _ st] per90_stage_plain(1) [OF _ st] by blast
  show "list_all2 (carries (columns work) (columns w1) mc) (rows work) (rows w1)"
  proof (cases "per_90 \<and> ''minutesPlayed'' \<in> set (columns work)")
    case True
    then have "list_all2 (\<lambda>r r1. carries (columns work) (columns w1) mc r r1 \<and> per90_row (columns work) (columns w1) metric r r1) (rows work) (rows w1)"
      using per90_stage_per90(4) [OF wf _ _ st] by blast
    then show ?thesis by (rule list_all2_mono) simp
  next
    case False
    from per90_stage_plain [OF False st] show ?thesis
      by (simp add: list_all2_same carries_def)
  qed
qed

lemma numeric_col_filter:
  "numeric_col df c \<Longrightarrow> numeric_col (df\<lparr>rows := filter P (rows df)\<rparr>) c"
  by (simp add: numeric_col_def list_all_iff)

lemma take_split:
  assumes "\<forall>r\<in>set xs. P r" "\<forall>r\<in>set ys. Q r" "sorted_wrt R xs"
  shows "\<exists>xs' ys'. take n (xs @ ys) = xs' @ ys' \<and> (\<forall>r\<in>set xs'. P r) \<and> (\<forall>r\<in>set ys'. Q r)
           \<and> sorted_wrt R xs'"
proof -
  have "take n (xs @ ys) = take n xs @ take (n - length xs) ys" by simp
  moreover have "\<forall>r\<in>set (take n xs). P r" using assms(1) by (meson in_set_takeD)
  moreover have "\<forall>r\<in>set (take (n - length xs) ys). Q r" using assms(2) by (meson in_set_takeD)
  moreover have "sorted_wrt R (take n xs)" using assms(3) by (rule sorted_wrt_take)
  ultimately show ?thesis by blast
qed

lemma top_work_Inr:
  assumes ok: "argsort_ok srt" and wf: "wf_frame df"
    and tw: "top_work srt df metric per_90 m asc = Inr (work, mc)"
  shows "mc = (if per_90 \<and> ''minutesPlayed'' \<in> set (columns df) then metric @ ''_per90'' else metric)"
    and "wf_frame work"
    and "set (columns df) \<subseteq> set (columns work)"
    and "mc \<in> set (columns work)"
    and "length (rows work) = min 10 (length (filter (qualifies df m) (rows df)))"
    and "\<forall>r1\<in>set (rows work). \<exists>r\<in>set (rows df). qualifies df m r
           \<and> carries (columns df) (columns work) mc r r1
           \<and> (per_90 \<and> ''minutesPlayed'' \<in> set (columns df) \<longrightarrow>
                per90_row (columns df) (columns work) metric r r1)"
    and "\<exists>xs ys. rows work = xs @ ys
           \<and> (\<forall>r\<in>set xs. \<not> isna (r ! index_of (columns work) mc))
           \<and> (\<forall>r\<in>set ys. isna (r ! index_of (columns work) mc))
           \<and> sorted_wrt (row_order (index_of (columns work) mc) asc) xs"
    and "set (columns work) \<subseteq> insert mc (set (columns df))"
proof -
  let ?w0 = "df\<lparr>rows := filter (qualifies df m) (rows df)\<rparr>"
  from tw obtain w0 where mf: "minutes_filter df m = Inr w0"
    by (cases "minutes_filter df m") (simp_all add: top_work_def)
  then have w0: "w0 = ?w0" by (rule minutes_filter_Inr)
  from tw mf obtain w1 mc' where ps: "per90_stage w0 metric per_90 = Inr (w1, mc')"
    by (cases "per90_stage w0 metric per_90") (auto simp: top_work_def)
  from tw mf ps obtain w2 where sv: "sort_values srt w1 mc' asc = Inr w2"
    by (cases "sort_values srt w1 mc' asc") (auto simp: top_work_def)
  from tw mf ps sv have work: "work = head 10 w2" and mc: "mc' = mc"
    by (auto simp: top_work_def)
  have wf0: "wf_frame w0" unfolding w0 using wf by (rule wf_frame_filter)
  have c0: "columns w0 = columns df" unfolding w0 by simp
  have r0: "rows w0 = filter (qualifies df m) (rows df)" unfolding w0 by simp
  note p = per90_stage_Inr [OF wf0 ps]
  note s = sort_values_Inr [OF ok sv]
  have cw: "columns work = columns w1" and rw: "rows work = take 10 (rows w2)"
    using s(1) work by (simp_all add: head_def)
  show "mc = (if per_90 \<and> ''minutesPlayed'' \<in> set (columns df) then metric @ ''_per90'' else metric)"
    using per90_stage_per90(1) [OF wf0 _ _ ps] per90_stage_plain(2) [OF _ ps] c0 mc by auto
  have wf2: "wf_frame w2" using ok sv p(1) by (rule sort_values_wf)
  show "wf_frame work" using wf2 unfolding work head_def
    by (auto simp: wf_frame_def list_all_iff dest: in_set_takeD)
  show "set (columns df) \<subseteq> set (columns work)" using p(2) c0 cw by simp
  show "set (columns work) \<subseteq> insert mc (set (columns df))" using p(4) c0 cw mc by simp
  show "mc \<in> set (columns work)" using sv mc cw
    by (auto simp: sort_values_def split: if_splits)
  have l1: "length (rows w1) = length (rows w0)" using p(3) by (simp add: list_all2_lengthD)
  have l2: "length (rows w2) = length (rows w1)" using s(2) by (metis size_mset)
  show "length (rows work) = min 10 (length (filter (qualifies df m) (rows df)))"
    using rw l1 l2 r0 by simp
  show "\<forall>r1\<in>set (rows work). \<exists>r\<in>set (rows df). qualifies df m r
           \<and> carries (columns df) (columns work) mc r r1
           \<and> (per_90 \<and> ''minutesPlayed'' \<in> set (columns df) \<longrightarrow>
                per90_row (columns df) (columns work) metric r r1)"
  proof
    fix r1 assume "r1 \<in> set (rows work)"
    then have "r1 \<in> set (rows w2)" using rw by (auto dest: in_set_takeD)
    then have "r1 \<in> set (rows w1)" using s(2) by (metis set_mset_mset)
    then obtain k where k: "k < length (rows w1)" "r1 = rows w1 ! k" by (auto simp: in_set_conv_nth)
    let ?r = "rows w0 ! k"
    have rin: "?r \<in> set (rows w0)" using k l1 by simp
    then have q: "?r \<in> set (rows df)" "qualifies df m ?r" using r0 by auto
    have ca: "carries (columns df) (columns work) mc ?r r1"
      using p(3) k l1 c0 cw mc by (simp add: list_all2_conv_all_nth)
    have pr: "per90_row (columns df) (columns work) metric ?r r1"
      if "per_90 \<and> ''minutesPlayed'' \<in> set (columns df)"
    proof -
      from that have "list_all2 (\<lambda>r r1. carries (columns w0) (columns w1) mc' r r1
             \<and> per90_row (columns w0) (columns w1) metric r r1) (rows w0) (rows w1)"
        using per90_stage_per90(4) [OF wf0 _ _ ps] c0 by simp
      then show ?thesis using k l1 c0 cw by (simp add: list_all2_conv_all_nth)
    qed
    from q ca pr show "\<exists>r\<in>set (rows df). qualifies df m r
           \<and> carries (columns df) (columns work) mc r r1
           \<and> (per_90 \<and> ''minutesPlayed'' \<in> set (columns df) \<longrightarrow>
                per90_row (columns df) (columns work) metric r r1)" by blast
  qed
  from s(3) obtain xs ys where
    "rows w2 = xs @ ys" "\<forall>r\<in>set xs. \<not> isna (r ! index_of (columns w1) mc')"
    "\<forall>r\<in>set ys. isna (r ! index_of (columns w1) mc')"
    "sorted_wrt (row_order (index_of (columns w1) mc') asc) xs" by blast
  then show "\<exists>xs ys. rows work = xs @ ys
           \<and> (\<forall>r\<in>set xs. \<not> isna (r ! index_of (columns work) mc))
           \<and> (\<forall>r\<in>set ys. isna (r ! index_of (columns work) mc))
           \<and> sorted_wrt (row_order (index_of (columns work) mc) asc) xs"
    unfolding rw cw mc by (simp only: take_split)
qed

lemma numeric_colI:
  assumes "\<And>r. r \<in> set (rows df) \<Longrightarrow> \<exists>x. r ! index_of (columns df) c = Num x"
  shows "numeric_col df c"
  unfolding numeric_col_def list_all_iff
proof
  fix r assume "r \<in> set (rows df)"
  from assms [OF this] obtain x where "r ! index_of (columns df) c = Num x" by blast
  then show "case r ! index_of (columns df) c of Num x \<Rightarrow> True | _ \<Rightarrow> False" by simp
qed

lemma top_work_total:
  assumes wf: "wf_frame df" and "metric \<in> set (columns df)" "numeric_col df metric"
    and "''minutesPlayed'' \<in> set (columns df) \<longrightarrow> numeric_col df ''minutesPlayed''"
  shows "\<exists>work mc. top_work srt df metric per_90 m asc = Inr (work, mc)"
proof -
  let ?w0 = "df\<lparr>rows := filter (qualifies df m) (rows df)\<rparr>"
  from minutes_filter_total [OF assms(4)] obtain w0 where mf: "minutes_filter df m = Inr w0"
    by blast
  then have w0: "w0 = ?w0" by (rule minutes_filter_Inr)
  have wf0: "wf_frame w0" unfolding w0 using wf by (rule wf_frame_filter)
  have c0: "columns w0 = columns df" unfolding w0 by simp
  have n1: "numeric_col w0 metric" unfolding w0 using assms(3) by (rule numeric_col_filter)
  have n2: "''minutesPlayed'' \<in> set (columns w0) \<longrightarrow> numeric_col w0 ''minutesPlayed''"
    unfolding w0 using assms(4) by (simp add: numeric_col_filter)
  have m0: "metric \<in> set (columns w0)" using assms(2) c0 by simp
  from per90_stage_total [OF m0 n1 n2] obtain w1 mc where
    ps: "per90_stage w0 metric per_90 = Inr (w1, mc)" by blast
  have "mc \<in> set (columns w1) \<and> numeric_col w1 mc"
  proof (cases "per_90 \<and> ''minutesPlayed'' \<in> set (columns w0)")
    case True
    note p = per90_stage_per90 [OF wf0 _ _ ps]
    from True p(3) have a: "mc \<in> set (columns w1)" by simp
    from True p(4) have la: "list_all2 (\<lambda>r r1. carries (columns w0) (columns w1) mc r r1
        \<and> per90_row (columns w0) (columns w1) metric r r1) (rows w0) (rows w1)" by simp
    have "\<exists>x. r1 ! index_of (columns w1) mc = Num x" if "r1 \<in> set (rows w1)" for r1
    proof -
      from that obtain k where k: "k < length (rows w1)" "r1 = rows w1 ! k"
        by (auto simp: in_set_conv_nth)
      with la have "per90_row (columns w0) (columns w1) metric (rows w0 ! k) r1"
        by (simp add: list_all2_conv_all_nth)
      then show ?thesis using True p(1) by (auto simp: per90_row_def)
    qed
    then have "numeric_col w1 mc" by (rule numeric_colI)
    with a show ?thesis by simp
  next
    case False
    from per90_stage_plain [OF False ps] m0 n1 show ?thesis by simp
  qed
  then obtain w2 where "sort_values srt w1 mc asc = Inr w2"
    using sort_values_total by blast
  with mf ps show ?thesis by (simp add: top_work_def)
qed




section \<open>Leaderboard Builder: missing and infinite per-90 values\<close>




section \<open>Tackler Extractor: the error of the fallback path\<close>

text \<open>
  C10. When the local file is absent and the league request of the scraping client raises
  a \<^verbatim>\<open>KeyError\<close>, whatever the key, the function does not let it through: it raises a
  \<^verbatim>\<open>RuntimeError\<close> whose message names the cause (the \<^verbatim>\<open>'seasons'\<close> key missing from
  the API response) and the remedy (creating \<^verbatim>\<open>tackles_joined.csv\<close> for the function to
  load).
\<close>

theorem fallback_key_error_message:
  assumes "csv_file env = None"
    and "scrape_player_league_stats (sofascore env) season = Inl (KeyError k)"
  shows "get_top_tacklers_super_lig srt env season top_n min_age max_age
           = Inl (RuntimeError seasons_message)
     \<and> sublist ''missing 'seasons' key in API response'' seasons_message
     \<and> sublist ''create 'tackles_joined.csv' and let this function load from it'' seasons_message"
proof -
  have "fetch_league_stats (sofascore env) season = Inl (RuntimeError seasons_message)"
    using assms(2) by (simp add: fetch_league_stats_def)
  then have "get_top_tacklers_super_lig srt env season top_n min_age max_age
               = Inl (RuntimeError seasons_message)"
    using assms(1) by (simp add: get_top_tacklers_super_lig_def scraped_top_tacklers_def)
  moreover have "sublist ''missing 'seasons' key in API response'' seasons_message"
    unfolding seasons_message_def by code_simp
  moreover have "sublist ''create 'tackles_joined.csv' and let this function load from it'' seasons_message"
    unfolding seasons_message_def by code_simp
  ultimately show ?thesis by simp
qed

theorem fallback_key_error_message_witness:
  "csv_file drifted_environment = None
   \<and> scrape_player_league_stats (sofascore drifted_environment) ''25/26'' = Inl (KeyError ''seasons'')
   \<and> get_top_tacklers_super_lig insertion_argsort drifted_environment ''25/26'' 15 None None
        = Inl (RuntimeError seasons_message)"
proof -
  have a: "csv_file drifted_environment = None"
    by (simp add: drifted_environment_def)
  have b: "scrape_player_league_stats (sofascore drifted_environment) ''25/26'' = Inl (KeyError ''seasons'')"
    by (simp add: drifted_environment_def)
  from fallback_key_error_message [OF a b, of insertion_argsort 15 None None] a b
  show ?thesis by simp
qed

lemma select_cols_Inr:
  "select_cols df cs = Inr d \<longleftrightarrow>
     set cs \<subseteq> set (columns df)
     \<and> d = \<lparr>columns = cs, rows = map (\<lambda>r. map (\<lambda>c. r ! index_of (columns df) c) cs) (rows df)\<rparr>"
proof (cases "filter (\<lambda>c. c \<notin> set (columns df)) cs")
  case Nil
  then have "set cs \<subseteq> set (columns df)" by (auto simp: filter_empty_conv)
  with Nil show ?thesis by (auto simp: select_cols_def)
next
  case (Cons m ms)
  then have "m \<in> set (filter (\<lambda>c. c \<notin> set (columns df)) cs)" by simp
  then have "\<not> set cs \<subseteq> set (columns df)" by auto
  with Cons show ?thesis by (simp add: select_cols_def)
qed


lemma map_rename_absent: "x \<notin> set cs \<Longrightarrow> map (\<lambda>c. if c = x then y else c) cs = cs"
  by (induction cs) auto

lemma rename_if_present_columns:
  "columns (rename_if_present df x y) = map (\<lambda>c. if c = x then y else c) (columns df)"
  by (simp add: rename_if_present_def rename_def map_rename_absent)

lemma rename_if_present_rows: "rows (rename_if_present df x y) = rows df"
  by (simp add: rename_if_present_def rename_def)

lemma pretty_labels_columns:
  "columns (pretty_labels df metric mc)
     = map (display_label mc (title (replace_underscores metric))) (columns df)"
  unfolding pretty_labels_def rename_if_present_columns
  by (simp add: rename_def display_label_def Let_def)

lemma pretty_labels_rows: "rows (pretty_labels df metric mc) = rows df"
  unfolding pretty_labels_def rename_if_present_rows by (simp add: rename_def)

lemma map_zip_map2: "map f (zip (map g xs) (map h xs)) = map (\<lambda>x. f (g x, h x)) xs"
  by (induction xs) auto

lemma build_display_Inr:
  assumes bd: "build_display work metric mc extra_cols = Inr d"
  shows "set (display_cols mc extra_cols) \<subseteq> set (columns work)"
    and "''Rk'' \<notin> set (display_cols mc extra_cols)"
    and "columns d = ''Rk'' # map (display_label mc (title (replace_underscores metric)))
                                  (display_cols mc extra_cols)"
    and "length (rows d) = length (rows work)"
    and "\<forall>i<length (rows work). rows d ! i =
           Num (Fin (of_nat (Suc i))) #
           map (\<lambda>c. display_cell (display_label mc (title (replace_underscores metric)) c)
                      (rows work ! i ! index_of (columns work) c)) (display_cols mc extra_cols)"
proof -
  let ?dcs = "display_cols mc extra_cols"
  let ?lab = "display_label mc (title (replace_underscores metric))"
  from bd obtain display where sel: "select_cols work ?dcs = Inr display"
    unfolding build_display_def by (cases "select_cols work ?dcs") simp_all
  from bd sel obtain display1 where ins: "insert_rk display = Inr display1"
    unfolding build_display_def by (cases "insert_rk display") simp_all
  from bd sel ins have d: "d = format_display (pretty_labels display1 metric mc)"
    unfolding build_display_def by simp
  from sel have sub: "set ?dcs \<subseteq> set (columns work)"
    and cdisp: "columns display = ?dcs"
    and rdisp: "rows display = map (\<lambda>r. map (\<lambda>c. r ! index_of (columns work) c) ?dcs) (rows work)"
    by (simp_all add: select_cols_Inr)
  from ins have nork: "''Rk'' \<notin> set (columns display)"
    and c1: "columns display1 = ''Rk'' # columns display"
    and r1: "rows display1 = map (\<lambda>(i, r). Num (Fin (of_nat i)) # r) (enumerate 1 (rows display))"
    by (auto simp: insert_rk_def split: if_splits)
  show "set ?dcs \<subseteq> set (columns work)" by (rule sub)
  show nr: "''Rk'' \<notin> set ?dcs" using nork cdisp by simp
  have "mc \<in> set ?dcs" by (simp add: display_cols_def)
  with nr have "mc \<noteq> ''Rk''" by auto
  then have lrk: "?lab ''Rk'' = ''Rk''" by (simp add: display_label_def)
  have cd: "columns d = map ?lab (columns display1)"
    unfolding d by (simp add: format_display_def pretty_labels_columns)
  show "columns d = ''Rk'' # map ?lab ?dcs" unfolding cd c1 cdisp using lrk by simp
  have rd: "rows d = map (\<lambda>r. map (\<lambda>(c, v). display_cell c v) (zip (map ?lab (columns display1)) r))
                         (rows display1)"
    unfolding d by (simp add: format_display_def pretty_labels_columns pretty_labels_rows)
  show "length (rows d) = length (rows work)" unfolding rd r1 rdisp by simp
  show "\<forall>i<length (rows work). rows d ! i =
           Num (Fin (of_nat (Suc i))) #
           map (\<lambda>c. display_cell (?lab c) (rows work ! i ! index_of (columns work) c)) ?dcs"
  proof (intro allI impI)
    fix i assume i: "i < length (rows work)"
    have a: "rows display ! i = map (\<lambda>c. rows work ! i ! index_of (columns work) c) ?dcs"
      unfolding rdisp using i by simp
    have li: "i < length (rows display)" unfolding rdisp using i by simp
    have b: "rows display1 ! i = Num (Fin (of_nat (Suc i))) # rows display ! i"
      unfolding r1 using li by (simp add: nth_enumerate_eq)
    have c: "rows d ! i = map (\<lambda>(c, v). display_cell c v) (zip (map ?lab (columns display1)) (rows display1 ! i))"
      unfolding rd using li r1 by simp
    have e: "display_cell ''Rk'' (Num (Fin (of_nat (Suc i)))) = Num (Fin (of_nat (Suc i)))"
      by (simp add: display_cell_def)
    show "rows d ! i =
           Num (Fin (of_nat (Suc i))) #
           map (\<lambda>c. display_cell (?lab c) (rows work ! i ! index_of (columns work) c)) ?dcs"
      unfolding c b a c1 cdisp using lrk e by (simp add: map_zip_map2)
  qed
qed

lemma build_display_total:
  assumes "set (display_cols mc extra_cols) \<subseteq> set (columns work)"
    and "''Rk'' \<notin> set (display_cols mc extra_cols)"
  shows "\<exists>d. build_display work metric mc extra_cols = Inr d"
proof -
  let ?dcs = "display_cols mc extra_cols"
  from assms(1) obtain display where sel: "select_cols work ?dcs = Inr display"
    and c: "columns display = ?dcs"
    by (simp add: select_cols_Inr)
  with assms(2) obtain display1 where "insert_rk display = Inr display1"
    by (simp add: insert_rk_def)
  with sel show ?thesis unfolding build_display_def by simp
qed


lemma per90_label_ne:
  "metric @ ''_per90'' \<noteq> ''player''" "metric @ ''_per90'' \<noteq> ''team''"
  "metric @ ''_per90'' \<noteq> ''Rk''"
proof -
  have l: "last (metric @ ''_per90'') = CHR ''0''" by simp
  show "metric @ ''_per90'' \<noteq> ''player''"
  proof
    assume "metric @ ''_per90'' = ''player''"
    then have "last (metric @ ''_per90'') = last ''player''" by (rule arg_cong)
    with l show False by simp
  qed
  show "metric @ ''_per90'' \<noteq> ''team''"
  proof
    assume "metric @ ''_per90'' = ''team''"
    then have "last (metric @ ''_per90'') = last ''team''" by (rule arg_cong)
    with l show False by simp
  qed
  show "metric @ ''_per90'' \<noteq> ''Rk''"
  proof
    assume "metric @ ''_per90'' = ''Rk''"
    then have "last (metric @ ''_per90'') = last ''Rk''" by (rule arg_cong)
    with l show False by simp
  qed
qed





lemma display_label_identifier:
  "mc \<noteq> ''player'' \<Longrightarrow> display_label mc p ''player'' = ''player''"
  "mc \<noteq> ''team'' \<Longrightarrow> display_label mc p ''team'' = ''team''"
  by (simp_all add: display_label_def)

lemma build_top_table_Inr:
  assumes "build_top_table srt df metric per_90 m asc extra_cols = Inr d"
  shows "\<exists>work mc. top_work srt df metric per_90 m asc = Inr (work, mc)
           \<and> build_display work metric mc extra_cols = Inr d"
  using assms unfolding build_top_table_def
  by (cases "top_work srt df metric per_90 m asc") auto

lemma ranking_col_ne:
  assumes "metric \<noteq> c" "c = ''player'' \<or> c = ''team'' \<or> c = ''Rk''"
  shows "ranking_col df metric per_90 \<noteq> c"
  using assms per90_label_ne [of metric] by (auto simp: ranking_col_def)

lemma build_top_table_total:
  assumes ok: "argsort_ok srt" and wf: "wf_frame df"
    and sub: "set (display_cols metric extra_cols) \<subseteq> set (columns df)"
    and nrk: "''Rk'' \<notin> set (display_cols metric extra_cols)"
    and num: "numeric_col df metric"
      "''minutesPlayed'' \<in> set (columns df) \<longrightarrow> numeric_col df ''minutesPlayed''"
  shows "\<exists>work d. top_work srt df metric per_90 m asc = Inr (work, ranking_col df metric per_90)
           \<and> build_display work metric (ranking_col df metric per_90) extra_cols = Inr d
           \<and> build_top_table srt df metric per_90 m asc extra_cols = Inr d"
proof -
  from sub have min: "metric \<in> set (columns df)" by (simp add: display_cols_def)
  from top_work_total [OF wf min num] obtain work mc where
    tw: "top_work srt df metric per_90 m asc = Inr (work, mc)" by blast
  note t = top_work_Inr [OF ok wf tw]
  from t(1) have mc: "mc = ranking_col df metric per_90" by (simp add: ranking_col_def)
  from nrk have "metric \<noteq> ''Rk''" by (auto simp: display_cols_def)
  then have "mc \<noteq> ''Rk''" unfolding mc by (rule ranking_col_ne) simp
  with nrk have a: "''Rk'' \<notin> set (display_cols mc extra_cols)" by (auto simp: display_cols_def)
  from sub t(3) t(4) have b: "set (display_cols mc extra_cols) \<subseteq> set (columns work)"
    by (auto simp: display_cols_def)
  from build_display_total [OF b a] obtain d where
    bd: "build_display work metric mc extra_cols = Inr d" by blast
  with tw have "build_top_table srt df metric per_90 m asc extra_cols = Inr d"
    by (simp add: build_top_table_def)
  with tw bd show ?thesis unfolding mc by blast
qed

lemma cell_ge_True: "cell_ge c m = Inr True \<Longrightarrow> \<exists>x. c = Num x \<and> fle (Fin (of_int m)) x"
  by (cases c) auto

lemma squad_table_facts:
  "wf_frame squad_table"
  "numeric_col squad_table ''goals''"
  "numeric_col squad_table ''minutesPlayed''"
  "columns squad_table = [''player'', ''team'', ''goals'', ''minutesPlayed'', ''age_x'', ''country'']"
  by code_simp+

section \<open>Leaderboard Builder: size, minutes filter and columns\<close>

text \<open>
  C5. On a well-formed table that has the columns asked for (player, team, the metric, the
  extra columns; numeric metric and minutes), the Leaderboard Builder returns a display
  table, and its number of rows is the smaller of 10 and the number \<open>k\<close> of rows that
  qualify after the minutes filter: exactly 10 rows when \<open>k \<ge> 10\<close>, exactly \<open>k\<close> rows
  when \<open>k < 10\<close>.
\<close>

theorem leaderboard_size:
  assumes "argsort_ok srt" and "wf_frame df"
    and "set (display_cols metric extra_cols) \<subseteq> set (columns df)"
    and "''Rk'' \<notin> set (display_cols metric extra_cols)"
    and "numeric_col df metric"
    and "''minutesPlayed'' \<in> set (columns df) \<longrightarrow> numeric_col df ''minutesPlayed''"
  shows "\<exists>d. build_top_table srt df metric per_90 min_minutes ascending extra_cols = Inr d
     \<and> length (rows d) = min 10 (length (filter (qualifies df min_minutes) (rows df)))"
proof -
  from build_top_table_total [OF assms] obtain work d where
    tw: "top_work srt df metric per_90 min_minutes ascending = Inr (work, ranking_col df metric per_90)"
    and bd: "build_display work metric (ranking_col df metric per_90) extra_cols = Inr d"
    and bt: "build_top_table srt df metric per_90 min_minutes ascending extra_cols = Inr d"
    by blast
  from top_work_Inr(5) [OF assms(1) assms(2) tw] build_display_Inr(4) [OF bd] bt
  show ?thesis by simp
qed

text \<open>Eleven of the twelve players of the example table have 300 minutes or more.\<close>

theorem leaderboard_size_witness:
  "argsort_ok insertion_argsort \<and> wf_frame squad_table
   \<and> length (filter (qualifies squad_table 300) (rows squad_table)) = 11
   \<and> (\<exists>d. build_top_table insertion_argsort squad_table ''goals'' True 300 False
              (Some [''age_x'', ''country'']) = Inr d
        \<and> length (rows d) = 10)"
proof -
  have k: "length (filter (qualifies squad_table 300) (rows squad_table)) = 11" by code_simp
  have sub: "set (display_cols ''goals'' (Some [''age_x'', ''country''])) \<subseteq> set (columns squad_table)"
    by (simp add: display_cols_def squad_table_facts(4))
  have nrk: "''Rk'' \<notin> set (display_cols ''goals'' (Some [''age_x'', ''country'']))"
    by (simp add: display_cols_def)
  have num: "''minutesPlayed'' \<in> set (columns squad_table) \<longrightarrow> numeric_col squad_table ''minutesPlayed''"
    by (simp add: squad_table_facts)
  from leaderboard_size [OF argsort_ok_insertion squad_table_facts(1) sub nrk squad_table_facts(2) num,
      of True 300 False]
  have "\<exists>d. build_top_table insertion_argsort squad_table ''goals'' True 300 False
              (Some [''age_x'', ''country'']) = Inr d
        \<and> length (rows d) = 10"
    unfolding k by simp
  with argsort_ok_insertion squad_table_facts(1) k show ?thesis by blast
qed

text \<open>
  C6. With a positive \<open>min_minutes\<close> on a table that has a \<^verbatim>\<open>minutesPlayed\<close> column,
  every row of the output is built from a row of the input whose minutes are a number not
  below \<open>min_minutes\<close>: it shows that row's player and team.  No row with fewer minutes,
  and no row whose minutes are missing, is displayed.
\<close>

theorem minutes_filter_output:
  assumes ok: "argsort_ok srt" and wf: "wf_frame df"
    and pos: "0 < min_minutes" and mp: "''minutesPlayed'' \<in> set (columns df)"
    and ne: "metric \<noteq> ''player''" "metric \<noteq> ''team''"
    and bt: "build_top_table srt df metric per_90 min_minutes ascending extra_cols = Inr d"
  shows "\<forall>i<length (rows d). \<exists>r\<in>set (rows df).
           (\<exists>x. r ! index_of (columns df) ''minutesPlayed'' = Num x \<and> fle (Fin (of_int min_minutes)) x)
         \<and> rows d ! i ! 1 = r ! index_of (columns df) ''player''
         \<and> rows d ! i ! 2 = r ! index_of (columns df) ''team''"
proof (intro allI impI)
  fix i assume i: "i < length (rows d)"
  from build_top_table_Inr [OF bt] obtain work mc where
    tw: "top_work srt df metric per_90 min_minutes ascending = Inr (work, mc)"
    and bd: "build_display work metric mc extra_cols = Inr d" by blast
  note t = top_work_Inr [OF ok wf tw]
  note b = build_display_Inr [OF bd]
  from t(1) have mc: "mc = ranking_col df metric per_90" by (simp add: ranking_col_def)
  have mcp: "mc \<noteq> ''player''" unfolding mc using ne(1) by (rule ranking_col_ne) simp
  have mct: "mc \<noteq> ''team''" unfolding mc using ne(2) by (rule ranking_col_ne) simp
  from b(1) have "''player'' \<in> set (columns work)" "''team'' \<in> set (columns work)"
    by (simp_all add: display_cols_def)
  with t(8) mcp mct have pin: "''player'' \<in> set (columns df)" and tin: "''team'' \<in> set (columns df)"
    by auto
  from i b(4) have iw: "i < length (rows work)" by simp
  then have "rows work ! i \<in> set (rows work)" by simp
  with t(6) obtain r where r: "r \<in> set (rows df)" and q: "qualifies df min_minutes r"
    and ca: "carries (columns df) (columns work) mc r (rows work ! i)" by blast
  from q pos mp have "cell_ge (r ! index_of (columns df) ''minutesPlayed'') min_minutes = Inr True"
    by (simp add: qualifies_def)
  then have m: "\<exists>x. r ! index_of (columns df) ''minutesPlayed'' = Num x \<and> fle (Fin (of_int min_minutes)) x"
    by (rule cell_ge_True)
  from ca pin mcp have cp: "rows work ! i ! index_of (columns work) ''player'' = r ! index_of (columns df) ''player''"
    by (simp add: carries_def)
  from ca tin mct have ct: "rows work ! i ! index_of (columns work) ''team'' = r ! index_of (columns df) ''team''"
    by (simp add: carries_def)
  from b(5) iw have row: "rows d ! i =
           Num (Fin (of_nat (Suc i))) #
           map (\<lambda>c. display_cell (display_label mc (title (replace_underscores metric)) c)
                      (rows work ! i ! index_of (columns work) c)) (display_cols mc extra_cols)"
    by simp
  have "rows d ! i ! 1 = rows work ! i ! index_of (columns work) ''player''"
    unfolding row using mcp by (simp add: display_cols_def display_label_identifier display_cell_def)
  moreover have "rows d ! i ! 2 = rows work ! i ! index_of (columns work) ''team''"
    unfolding row using mct by (simp add: display_cols_def display_label_identifier display_cell_def)
  ultimately show "\<exists>r\<in>set (rows df).
           (\<exists>x. r ! index_of (columns df) ''minutesPlayed'' = Num x \<and> fle (Fin (of_int min_minutes)) x)
         \<and> rows d ! i ! 1 = r ! index_of (columns df) ''player''
         \<and> rows d ! i ! 2 = r ! index_of (columns df) ''team''"
    using r m cp ct by auto
qed

theorem minutes_filter_output_witness:
  "argsort_ok insertion_argsort \<and> wf_frame minutes_table \<and> (0::int) < 300
   \<and> ''minutesPlayed'' \<in> set (columns minutes_table)
   \<and> build_top_table insertion_argsort minutes_table ''goals'' True 300 False None
        = Inr \<lparr>columns = [''Rk'', ''player'', ''team'', ''Goals''],
               rows = [[Num (Fin 1), Str ''A'', Str ''T1'', Str ''0.30'']]\<rparr>
   \<and> (\<exists>r\<in>set (rows minutes_table).
         (\<exists>x. r ! index_of (columns minutes_table) ''minutesPlayed'' = Num x \<and> fle (Fin 300) x)
         \<and> Str ''A'' = r ! index_of (columns minutes_table) ''player''
         \<and> Str ''T1'' = r ! index_of (columns minutes_table) ''team'')"
proof -
  have wf: "wf_frame minutes_table" by code_simp
  have mp: "''minutesPlayed'' \<in> set (columns minutes_table)" by code_simp
  have bt: "build_top_table insertion_argsort minutes_table ''goals'' True 300 False None
        = Inr \<lparr>columns = [''Rk'', ''player'', ''team'', ''Goals''],
               rows = [[Num (Fin 1), Str ''A'', Str ''T1'', Str ''0.30'']]\<rparr>"
    by code_simp
  from minutes_filter_output [OF argsort_ok_insertion wf _ mp _ _ bt]
  have "\<exists>r\<in>set (rows minutes_table).
         (\<exists>x. r ! index_of (columns minutes_table) ''minutesPlayed'' = Num x \<and> fle (Fin 300) x)
         \<and> Str ''A'' = r ! index_of (columns minutes_table) ''player''
         \<and> Str ''T1'' = r ! index_of (columns minutes_table) ''team''"
    by simp
  with argsort_ok_insertion wf mp bt show ?thesis by simp
qed




end
